theory Spec2Isabelle
  imports Complex_Main
begin

section \<open>The data model (types.ts)\<close>

text \<open>
  Dates are their millisecond value (\<open>Date.getTime()\<close>, \<open>Date.now()\<close>), an integer.
  An optional property of an interface is an \<open>option\<close>.

  A property of a stored session holds a value of its declared type or \<open>undefined\<close>:
  \<open>updateSession\<close> takes a \<open>Partial<ConversationSession>\<close>, in which a property may be
  present with the value \<open>undefined\<close>, and \<open>Object.assign\<close> copies it onto the session.
\<close>

datatype 'a js = Undefined | Val 'a

text \<open>What \<open>if (x)\<close> and \<open>!x\<close> test on a boolean property.\<close>

fun truthy :: "bool js \<Rightarrow> bool" where
  "truthy (Val b) = b"
| "truthy Undefined = False"

datatype error = TypeError

datatype Role = User | Assistant

record Message =
  role :: Role
  content :: string
  timestamp :: int
  messageId :: "string option"

datatype TrialStatus = Prospect | Trial | Paid | Expired

record BusinessContext =
  name :: "string option"
  industry :: "string option"
  trialStatus :: TrialStatus
  signupDate :: "int option"
  lastPayment :: "int option"

datatype Agent = Lexi

text \<open>
  \<open>conversationHistory\<close> is a reference to an array: the address of the array among the
  arrays of the heap (see \<open>arrays\<close> below), so that two sessions given the same array share
  it. \<open>lastActivity\<close> is always a date: the one place that could store \<open>undefined\<close> in it,
  line 231, is followed at once by the assignment of line 232.
\<close>

record ConversationSession =
  sessionId :: "string js"
  phoneNumber :: "string js"
  agent :: "Agent js"
  conversationHistory :: "nat js"
  businessContext :: "BusinessContext js"
  lastActivity :: int
  startTime :: "int js"
  isActive :: "bool js"

text \<open>
  \<open>Partial<ConversationSession>\<close>: every property is absent (\<open>None\<close>) or present, and when
  present holds \<open>undefined\<close> or a value of the property's type; for \<open>conversationHistory\<close>
  the value is the reference to an array that exists.
\<close>

record SessionUpdates =
  u_sessionId :: "string js option"
  u_phoneNumber :: "string js option"
  u_agent :: "Agent js option"
  u_conversationHistory :: "nat js option"
  u_businessContext :: "BusinessContext js option"
  u_lastActivity :: "int js option"
  u_startTime :: "int js option"
  u_isActive :: "bool js option"

text \<open>One property under \<open>Object.assign\<close>: overwritten when the source object has it.\<close>

definition assign_property :: "'a option \<Rightarrow> 'a \<Rightarrow> 'a" where
  "assign_property given old = (case given of None \<Rightarrow> old | Some v \<Rightarrow> v)"

text \<open>
  \<open>Object.assign(session, updates)\<close> (line 231) for every property but \<open>lastActivity\<close>,
  which line 232 assigns next whatever \<open>updates\<close> held for it.
\<close>

definition object_assign :: "ConversationSession \<Rightarrow> SessionUpdates \<Rightarrow> ConversationSession" where
  "object_assign session updates =
     session\<lparr>
       sessionId := assign_property (u_sessionId updates) (sessionId session),
       phoneNumber := assign_property (u_phoneNumber updates) (phoneNumber session),
       agent := assign_property (u_agent updates) (agent session),
       conversationHistory :=
         assign_property (u_conversationHistory updates) (conversationHistory session),
       businessContext := assign_property (u_businessContext updates) (businessContext session),
       startTime := assign_property (u_startTime updates) (startTime session),
       isActive := assign_property (u_isActive updates) (isActive session)\<rparr>"

section \<open>The JavaScript Map\<close>

text \<open>
  A \<open>Map\<close> iterates in insertion order, so it is an association list read from the front.
  \<open>set\<close> on a key that is present replaces the value where the entry stands; on a new key it
  adds the entry at the end. The store keeps objects in the map and mutates them in place:
  \<open>mutate k f\<close> is the assignment to properties of the object stored under \<open>k\<close>.
\<close>

definition Map_get :: "('k \<times> 'v) list \<Rightarrow> 'k \<Rightarrow> 'v option" where
  "Map_get m k = map_of m k"

fun Map_set :: "'k \<Rightarrow> 'v \<Rightarrow> ('k \<times> 'v) list \<Rightarrow> ('k \<times> 'v) list" where
  "Map_set k v [] = [(k, v)]"
| "Map_set k v ((k', v') # m) = (if k' = k then (k, v) # m else (k', v') # Map_set k v m)"

definition Map_delete :: "'k \<Rightarrow> ('k \<times> 'v) list \<Rightarrow> ('k \<times> 'v) list" where
  "Map_delete k m = filter (\<lambda>(k', v). k' \<noteq> k) m"

definition Map_values :: "('k \<times> 'v) list \<Rightarrow> 'v list" where
  "Map_values m = map snd m"

definition mutate :: "'k \<Rightarrow> ('v \<Rightarrow> 'v) \<Rightarrow> ('k \<times> 'v) list \<Rightarrow> ('k \<times> 'v) list" where
  "mutate k f m = map (\<lambda>(k', v). if k' = k then (k', f v) else (k', v)) m"

section \<open>The session manager (class ConversationManager)\<close>

text \<open>
  A pending timer is the handle \<open>setTimeout\<close> returned: it ends the named session after the
  given delay. The instant at which it was armed is not part of the handle.
\<close>

datatype Timeout = EndSessionAfter string int

text \<open>
  The state: the manager's two maps, and the message arrays that exist, by address. An array
  comes to exist when \<open>createSession\<close> evaluates \<open>[]\<close> or when a caller builds one to pass
  in an update; \<open>push\<close> changes it where it is, for every session that refers to it.
\<close>

record ConversationManager =
  activeSessions :: "(string \<times> ConversationSession) list"
  sessionTimeouts :: "(string \<times> Timeout) list"
  arrays :: "Message list list"

definition SESSION_TIMEOUT :: int where
  "SESSION_TIMEOUT = 30 * 60 * 1000"

definition CLEANUP_INTERVAL :: int where
  "CLEANUP_INTERVAL = 5 * 60 * 1000"

text \<open>The manager as the constructor leaves it: both maps empty, and no array yet.\<close>

definition initial :: ConversationManager where
  "initial = \<lparr>activeSessions = [], sessionTimeouts = [], arrays = []\<rparr>"

subsection \<open>Arrays\<close>

definition new_array :: "Message list \<Rightarrow> ConversationManager \<Rightarrow> nat \<times> ConversationManager" where
  "new_array xs cm = (length (arrays cm), cm\<lparr>arrays := arrays cm @ [xs]\<rparr>)"

definition array_push :: "nat \<Rightarrow> Message \<Rightarrow> Message list list \<Rightarrow> Message list list" where
  "array_push a message h = h[a := h ! a @ [message]]"

text \<open>The messages a session's \<open>conversationHistory\<close> holds, when it is an array.\<close>

definition history_of :: "ConversationManager \<Rightarrow> ConversationSession \<Rightarrow> Message list option" where
  "history_of cm session =
     (case conversationHistory session of
        Undefined \<Rightarrow> None
      | Val a \<Rightarrow> if a < length (arrays cm) then Some (arrays cm ! a) else None)"

subsection \<open>Timers\<close>

definition clearSessionTimeout :: "string \<Rightarrow> ConversationManager \<Rightarrow> ConversationManager" where
  "clearSessionTimeout sid cm =
     (case Map_get (sessionTimeouts cm) sid of
        None \<Rightarrow> cm
      | Some t \<Rightarrow> cm\<lparr>sessionTimeouts := Map_delete sid (sessionTimeouts cm)\<rparr>)"

definition setSessionTimeout :: "string \<Rightarrow> ConversationManager \<Rightarrow> ConversationManager" where
  "setSessionTimeout sid cm =
     (let cm1 = clearSessionTimeout sid cm
      in cm1\<lparr>sessionTimeouts :=
               Map_set sid (EndSessionAfter sid SESSION_TIMEOUT) (sessionTimeouts cm1)\<rparr>)"

definition resetSessionTimeout :: "string \<Rightarrow> ConversationManager \<Rightarrow> ConversationManager" where
  "resetSessionTimeout sid cm = setSessionTimeout sid cm"

subsection \<open>Session ids\<close>

text \<open>
  The template literal prints \<open>Date.now()\<close>, an integer number of milliseconds, in decimal.
\<close>

definition digit_char :: "nat \<Rightarrow> char" where
  "digit_char d = ''0123456789'' ! d"

fun nat_to_string :: "nat \<Rightarrow> string" where
  "nat_to_string n =
     (if n < 10 then [digit_char n] else nat_to_string (n div 10) @ [digit_char (n mod 10)])"

declare nat_to_string.simps [simp del]

definition number_to_string :: "int \<Rightarrow> string" where
  "number_to_string i =
     (if i < 0 then CHR ''-'' # nat_to_string (nat (- i)) else nat_to_string (nat i))"

definition make_sessionId :: "string \<Rightarrow> int \<Rightarrow> string" where
  "make_sessionId phone t = ''whatsapp_'' @ phone @ ''_'' @ number_to_string t"

subsection \<open>Operations\<close>

text \<open>
  Every operation takes the state and returns its result with the state afterwards; the two
  that can raise return the error instead, having changed nothing. Each reading of the clock
  is an argument: \<open>createSession\<close> reads it three times (\<open>Date.now()\<close> for the id,
  \<open>new Date()\<close> for \<open>lastActivity\<close>, \<open>new Date()\<close> for \<open>startTime\<close>), the other operations
  once.
\<close>

definition createSession ::
  "int \<Rightarrow> int \<Rightarrow> int \<Rightarrow> string \<Rightarrow> ConversationManager \<Rightarrow> ConversationSession \<times> ConversationManager" where
  "createSession t_id t_last t_start phone cm =
     (let sid = make_sessionId phone t_id;
          (a, cm0) = new_array [] cm;
          session = \<lparr>sessionId = Val sid, phoneNumber = Val phone, agent = Val Lexi,
                     conversationHistory = Val a,
                     businessContext = Val \<lparr>name = None, industry = None, trialStatus = Prospect,
                                              signupDate = None, lastPayment = None\<rparr>,
                     lastActivity = t_last, startTime = Val t_start, isActive = Val True\<rparr>;
          cm1 = cm0\<lparr>activeSessions := Map_set sid session (activeSessions cm0)\<rparr>
      in (session, setSessionTimeout sid cm1))"

definition getSession ::
  "int \<Rightarrow> string \<Rightarrow> ConversationManager \<Rightarrow> ConversationSession option \<times> ConversationManager" where
  "getSession now phone cm =
     (case find (\<lambda>(sid, session). phoneNumber session = Val phone \<and> truthy (isActive session))
                (activeSessions cm) of
        None \<Rightarrow> (None, cm)
      | Some (sid, session) \<Rightarrow>
          (let cm1 = cm\<lparr>activeSessions :=
                          mutate sid (\<lambda>s. s\<lparr>lastActivity := now\<rparr>) (activeSessions cm)\<rparr>
           in (Some (session\<lparr>lastActivity := now\<rparr>), resetSessionTimeout sid cm1)))"

definition getSessionById ::
  "int \<Rightarrow> string \<Rightarrow> ConversationManager \<Rightarrow> ConversationSession option \<times> ConversationManager" where
  "getSessionById now sid cm =
     (case Map_get (activeSessions cm) sid of
        None \<Rightarrow> (None, cm)
      | Some session \<Rightarrow>
          if truthy (isActive session)
          then (let cm1 = cm\<lparr>activeSessions :=
                               mutate sid (\<lambda>s. s\<lparr>lastActivity := now\<rparr>) (activeSessions cm)\<rparr>
                in (Some (session\<lparr>lastActivity := now\<rparr>), resetSessionTimeout sid cm1))
          else (None, cm))"

definition updateSession ::
  "int \<Rightarrow> string \<Rightarrow> SessionUpdates \<Rightarrow> ConversationManager \<Rightarrow> bool \<times> ConversationManager" where
  "updateSession now sid updates cm =
     (case Map_get (activeSessions cm) sid of
        None \<Rightarrow> (False, cm)
      | Some session \<Rightarrow>
          (let cm1 = cm\<lparr>activeSessions :=
                          mutate sid (\<lambda>s. (object_assign s updates)\<lparr>lastActivity := now\<rparr>)
                            (activeSessions cm)\<rparr>
           in (True, resetSessionTimeout sid cm1)))"

text \<open>
  \<open>session.conversationHistory.push(message)\<close> raises a \<open>TypeError\<close> when the property is
  \<open>undefined\<close>, before anything was changed.
\<close>

definition addMessageToSession ::
  "int \<Rightarrow> string \<Rightarrow> Message \<Rightarrow> ConversationManager \<Rightarrow> error + bool \<times> ConversationManager" where
  "addMessageToSession now sid message cm =
     (case Map_get (activeSessions cm) sid of
        None \<Rightarrow> Inr (False, cm)
      | Some session \<Rightarrow>
          (case conversationHistory session of
             Undefined \<Rightarrow> Inl TypeError
           | Val a \<Rightarrow>
               (let cm1 = cm\<lparr>arrays := array_push a message (arrays cm)\<rparr>;
                    cm2 = cm1\<lparr>activeSessions :=
                                mutate sid (\<lambda>s. s\<lparr>lastActivity := now\<rparr>) (activeSessions cm1)\<rparr>
                in Inr (True, resetSessionTimeout sid cm2))))"

definition endSession :: "string \<Rightarrow> ConversationManager \<Rightarrow> bool \<times> ConversationManager" where
  "endSession sid cm =
     (case Map_get (activeSessions cm) sid of
        None \<Rightarrow> (False, cm)
      | Some session \<Rightarrow>
          (let cm1 = cm\<lparr>activeSessions :=
                          mutate sid (\<lambda>s. s\<lparr>isActive := Val False\<rparr>) (activeSessions cm)\<rparr>
           in (True, clearSessionTimeout sid cm1)))"

definition getActiveSessions :: "ConversationManager \<Rightarrow> ConversationSession list" where
  "getActiveSessions cm = filter (\<lambda>session. truthy (isActive session)) (Map_values (activeSessions cm))"


text \<open>
  The sweep walks the entries in map order and ends each one that is inactive already or idle
  for longer than the timeout; \<open>cleanedCount\<close> is only logged.
\<close>

fun cleanup_loop ::
  "int \<Rightarrow> (string \<times> ConversationSession) list \<Rightarrow> ConversationManager \<times> nat \<Rightarrow> ConversationManager \<times> nat" where
  "cleanup_loop now [] acc = acc"
| "cleanup_loop now ((sid, session) # rest) (cm, cleanedCount) =
     (if \<not> truthy (isActive session) \<or> now - lastActivity session > SESSION_TIMEOUT
      then cleanup_loop now rest (snd (endSession sid cm), cleanedCount + 1)
      else cleanup_loop now rest (cm, cleanedCount))"

definition cleanupExpiredSessions :: "int \<Rightarrow> ConversationManager \<Rightarrow> ConversationManager" where
  "cleanupExpiredSessions now cm = fst (cleanup_loop now (activeSessions cm) (cm, 0))"

text \<open>
  The statistics. The field \<open>activeSessions\<close> of the result is \<open>stats_activeSessions\<close> here,
  since the manager's own map has that name. The average is the quotient of two integers.
  \<open>session.businessContext.trialStatus\<close> and \<open>session.conversationHistory.length\<close> raise a
  \<open>TypeError\<close> on a session whose property is \<open>undefined\<close>: the first for any stored
  session, the second for an active one.
\<close>

record SessionStats =
  totalSessions :: nat
  stats_activeSessions :: nat
  averageConversationLength :: real
  sessionsByStatus :: "(TrialStatus \<times> nat) list"

fun count_statuses ::
  "(TrialStatus \<times> nat) list \<Rightarrow> ConversationSession list \<Rightarrow> error + (TrialStatus \<times> nat) list" where
  "count_statuses acc [] = Inr acc"
| "count_statuses acc (session # rest) =
     (case businessContext session of
        Undefined \<Rightarrow> Inl TypeError
      | Val context \<Rightarrow>
          (let status = trialStatus context
           in count_statuses
                (Map_set status ((case Map_get acc status of None \<Rightarrow> 0 | Some c \<Rightarrow> c) + 1) acc)
                rest))"

fun sum_history_lengths ::
  "Message list list \<Rightarrow> nat \<Rightarrow> ConversationSession list \<Rightarrow> error + nat" where
  "sum_history_lengths h n [] = Inr n"
| "sum_history_lengths h n (session # rest) =
     (case conversationHistory session of
        Undefined \<Rightarrow> Inl TypeError
      | Val a \<Rightarrow> sum_history_lengths h (n + length (h ! a)) rest)"

definition getSessionStats :: "ConversationManager \<Rightarrow> error + SessionStats" where
  "getSessionStats cm =
     (let sessions = Map_values (activeSessions cm);
          active = filter (\<lambda>s. truthy (isActive s)) sessions
      in case count_statuses [] sessions of
           Inl e \<Rightarrow> Inl e
         | Inr by_status \<Rightarrow>
             (if length active > 0
              then (case sum_history_lengths (arrays cm) 0 active of
                      Inl e \<Rightarrow> Inl e
                    | Inr messages \<Rightarrow>
                        Inr \<lparr>totalSessions = length sessions,
                             stats_activeSessions = length active,
                             averageConversationLength = real messages / real (length active),
                             sessionsByStatus = by_status\<rparr>)
              else Inr \<lparr>totalSessions = length sessions,
                        stats_activeSessions = length active,
                        averageConversationLength = 0,
                        sessionsByStatus = by_status\<rparr>))"

subsection \<open>Sequences of operations\<close>

text \<open>
  What can happen to the state: a call of a public method, a sweep of the interval timer, a
  session's timer firing, which runs \<open>endSession\<close> for the session it was armed for, and a
  caller building an array (to pass it in an update). \<open>exec\<close> is the state afterwards; an
  operation that raises leaves it as it was.
\<close>

datatype Operation =
    CreateSession int int int string
  | GetSession int string
  | GetSessionById int string
  | UpdateSession int string SessionUpdates
  | AddMessageToSession int string Message
  | EndSession string
  | GetActiveSessions
  | GetActiveSessionCount
  | GetSessionStats
  | CleanupExpiredSessions int
  | TimeoutFires string
  | NewArray "Message list"

fun exec :: "Operation \<Rightarrow> ConversationManager \<Rightarrow> ConversationManager" where
  "exec (CreateSession t_id t_last t_start phone) cm = snd (createSession t_id t_last t_start phone cm)"
| "exec (GetSession now phone) cm = snd (getSession now phone cm)"
| "exec (GetSessionById now sid) cm = snd (getSessionById now sid cm)"
| "exec (UpdateSession now sid updates) cm = snd (updateSession now sid updates cm)"
| "exec (AddMessageToSession now sid message) cm =
     (case addMessageToSession now sid message cm of Inl e \<Rightarrow> cm | Inr (ok, cm') \<Rightarrow> cm')"
| "exec (EndSession sid) cm = snd (endSession sid cm)"
| "exec GetActiveSessions cm = cm"
| "exec GetActiveSessionCount cm = cm"
| "exec GetSessionStats cm = cm"
| "exec (CleanupExpiredSessions now) cm = cleanupExpiredSessions now cm"
| "exec (TimeoutFires sid) cm =
     (case Map_get (sessionTimeouts cm) sid of
        None \<Rightarrow> cm
      | Some (EndSessionAfter target delay) \<Rightarrow> snd (endSession target cm))"
| "exec (NewArray xs) cm = snd (new_array xs cm)"

fun run :: "Operation list \<Rightarrow> ConversationManager \<Rightarrow> ConversationManager" where
  "run [] cm = cm"
| "run (op # ops) cm = run ops (exec op cm)"

section \<open>Auxiliary notions and sample data\<close>

text \<open>Reading a decimal back, to say that the id determines the clock value it was made of.\<close>

definition digit_value :: "char \<Rightarrow> nat" where
  "digit_value c = of_char c - 48"

definition string_to_nat :: "string \<Rightarrow> nat" where
  "string_to_nat s = foldl (\<lambda>n c. 10 * n + digit_value c) 0 s"

definition string_to_number :: "string \<Rightarrow> int" where
  "string_to_number s =
     (case s of
        [] \<Rightarrow> 0
      | c # rest \<Rightarrow> if c = CHR ''-'' then - int (string_to_nat rest) else int (string_to_nat s))"

text \<open>No stored session is both active and registered for the phone number.\<close>

definition no_active_session :: "string \<Rightarrow> ConversationManager \<Rightarrow> bool" where
  "no_active_session phone cm =
     list_all (\<lambda>(sid, s). \<not> (phoneNumber s = Val phone \<and> truthy (isActive s))) (activeSessions cm)"

text \<open>
  The session created for \<open>+1\<close> at clock value 5 in the empty store, the store that holds
  it, three messages, and that store after the first message was appended.
\<close>

definition example_session :: ConversationSession where
  "example_session = fst (createSession 5 5 5 ''+1'' initial)"

definition example_store :: ConversationManager where
  "example_store = snd (createSession 5 5 5 ''+1'' initial)"

definition example_message :: Message where
  "example_message = \<lparr>role = User, content = ''hello'', timestamp = 7, messageId = None\<rparr>"

definition example_reply :: Message where
  "example_reply = \<lparr>role = Assistant, content = ''hi there'', timestamp = 8, messageId = None\<rparr>"

definition example_question :: Message where
  "example_question = \<lparr>role = User, content = ''price?'', timestamp = 9, messageId = Some ''SM1''\<rparr>"

definition example_chat :: ConversationManager where
  "example_chat = exec (AddMessageToSession 7 ''whatsapp_+1_5'' example_message) example_store"

text \<open>The empty object \<open>{}\<close> as an update.\<close>

definition no_updates :: SessionUpdates where
  "no_updates = \<lparr>u_sessionId = None, u_phoneNumber = None, u_agent = None,
      u_conversationHistory = None, u_businessContext = None, u_lastActivity = None,
      u_startTime = None, u_isActive = None\<rparr>"

text \<open>
  That store after the session was ended, and after an update gave it
  \<open>conversationHistory: undefined\<close>.
\<close>

definition example_ended :: ConversationManager where
  "example_ended = snd (endSession ''whatsapp_+1_5'' example_chat)"

definition example_no_history :: ConversationManager where
  "example_no_history =
     snd (updateSession 8 ''whatsapp_+1_5'' (no_updates\<lparr>u_conversationHistory := Some Undefined\<rparr>)
            example_chat)"

text \<open>
  Two maps of sessions hold the same keys in the same order, and the sessions under each
  key are related by \<open>R\<close>.
\<close>

definition sessions_rel ::
  "(ConversationSession \<Rightarrow> ConversationSession \<Rightarrow> bool) \<Rightarrow>
   (string \<times> ConversationSession) list \<Rightarrow> (string \<times> ConversationSession) list \<Rightarrow> bool" where
  "sessions_rel R m m' = list_all2 (\<lambda>(k, s) (k', s'). k' = k \<and> R s s') m m'"

text \<open>Every array that existed still exists and holds what it held, followed by more.\<close>

definition arrays_extended :: "Message list list \<Rightarrow> Message list list \<Rightarrow> bool" where
  "arrays_extended h h' =
     (length h \<le> length h' \<and> (\<forall>a < length h. \<exists>ms. h' ! a = h ! a @ ms))"

text \<open>A run of \<open>addMessageToSession\<close> calls on one session id, with the result of each call.\<close>

fun addMessages ::
  "string \<Rightarrow> (int \<times> Message) list \<Rightarrow> ConversationManager \<Rightarrow> (error + bool) list \<times> ConversationManager" where
  "addMessages sid [] cm = ([], cm)"
| "addMessages sid ((now, message) # rest) cm =
     (case addMessageToSession now sid message cm of
        Inl e \<Rightarrow> (let (results, cm2) = addMessages sid rest cm in (Inl e # results, cm2))
      | Inr (ok, cm1) \<Rightarrow> (let (results, cm2) = addMessages sid rest cm1 in (Inr ok # results, cm2)))"

text \<open>
  The operations that can put something else in the place of a stored history or id, or make
  an ended session active again: \<open>updateSession\<close> given a \<open>conversationHistory\<close>, a
  \<open>sessionId\<close> or \<open>isActive: true\<close>, and \<open>createSession\<close>, which stores a new session
  under the id it generates.
\<close>

fun replaces_history :: "Operation \<Rightarrow> bool" where
  "replaces_history (UpdateSession now sid updates) = (u_conversationHistory updates \<noteq> None)"
| "replaces_history op = False"

fun created_id :: "Operation \<Rightarrow> string option" where
  "created_id (CreateSession t_id t_last t_start phone) = Some (make_sessionId phone t_id)"
| "created_id op = None"

fun sets_sessionId :: "Operation \<Rightarrow> bool" where
  "sets_sessionId (UpdateSession now sid updates) = (u_sessionId updates \<noteq> None)"
| "sets_sessionId op = False"

fun reactivates :: "Operation \<Rightarrow> bool" where
  "reactivates (UpdateSession now sid updates) = (u_isActive updates = Some (Val True))"
| "reactivates op = False"

text \<open>Every stored session carries the key it is stored under as its \<open>sessionId\<close>.\<close>

definition ids_are_keys :: "ConversationManager \<Rightarrow> bool" where
  "ids_are_keys cm = list_all (\<lambda>(k, s). sessionId s = Val k) (activeSessions cm)"

text \<open>
  What \<open>getSessionStats\<close> reads is there: every stored session has a \<open>businessContext\<close>
  and every active one a \<open>conversationHistory\<close>.
\<close>

definition stats_defined :: "ConversationManager \<Rightarrow> bool" where
  "stats_defined cm =
     list_all (\<lambda>(k, s). businessContext s \<noteq> Undefined
                 \<and> (\<not> truthy (isActive s) \<or> conversationHistory s \<noteq> Undefined))
       (activeSessions cm)"

section \<open>Decimal numbers and session ids\<close>

lemma digit_cases:
  "d < 10 \<Longrightarrow> d = 0 \<or> d = 1 \<or> d = 2 \<or> d = 3 \<or> d = 4 \<or> d = 5 \<or> d = 6 \<or> d = 7 \<or> d = 8 \<or> d = (9::nat)"
  by arith

lemma digit_value_digit_char:
  assumes "d < 10"
  shows "digit_value (digit_char d) = d"
  using digit_cases[OF assms] by (elim disjE) (simp_all add: digit_value_def digit_char_def)

lemma digit_char_not_sep:
  assumes "d < 10"
  shows "digit_char d \<noteq> CHR ''-'' \<and> digit_char d \<noteq> CHR ''_''"
  using digit_cases[OF assms] by (elim disjE) (simp_all add: digit_char_def)

lemma string_to_nat_snoc: "string_to_nat (s @ [c]) = 10 * string_to_nat s + digit_value c"
  by (simp add: string_to_nat_def)

lemma string_to_nat_nat_to_string: "string_to_nat (nat_to_string n) = n"
proof (induction n rule: nat_to_string.induct)
  case (1 n)
  show ?case
  proof (cases "n < 10")
    case True
    then have "nat_to_string n = [digit_char n]" by (subst nat_to_string.simps) simp
    with True show ?thesis by (simp add: string_to_nat_def digit_value_digit_char)
  next
    case False
    then have "nat_to_string n = nat_to_string (n div 10) @ [digit_char (n mod 10)]"
      by (subst nat_to_string.simps) simp
    with 1 False show ?thesis
      by (simp add: string_to_nat_snoc digit_value_digit_char)
  qed
qed

lemma nat_to_string_chars: "c \<in> set (nat_to_string n) \<Longrightarrow> c \<noteq> CHR ''-'' \<and> c \<noteq> CHR ''_''"
proof (induction n rule: nat_to_string.induct)
  case (1 n)
  show ?case
  proof (cases "n < 10")
    case True
    then have "nat_to_string n = [digit_char n]" by (subst nat_to_string.simps) simp
    with True 1(2) show ?thesis using digit_char_not_sep[of n] by simp
  next
    case False
    then have "nat_to_string n = nat_to_string (n div 10) @ [digit_char (n mod 10)]"
      by (subst nat_to_string.simps) simp
    with 1 False show ?thesis using digit_char_not_sep[of "n mod 10"] by auto
  qed
qed

lemma nat_to_string_nonempty: "nat_to_string n \<noteq> []"
  by (subst nat_to_string.simps) simp

lemma string_to_number_number_to_string: "string_to_number (number_to_string i) = i"
proof (cases "i < 0")
  case True
  then show ?thesis
    by (simp add: number_to_string_def string_to_number_def string_to_nat_nat_to_string)
next
  case False
  obtain c rest where s: "nat_to_string (nat i) = c # rest"
    using nat_to_string_nonempty[of "nat i"] by (cases "nat_to_string (nat i)") auto
  then have "c \<noteq> CHR ''-''" using nat_to_string_chars[of c "nat i"] by simp
  with False s show ?thesis
    using string_to_nat_nat_to_string[of "nat i"]
    by (simp add: number_to_string_def string_to_number_def)
qed

lemma number_to_string_no_underscore: "CHR ''_'' \<notin> set (number_to_string i)"
  using nat_to_string_chars by (auto simp: number_to_string_def)

lemma split_at_last_separator:
  "c \<notin> set ds \<Longrightarrow> c \<notin> set ds' \<Longrightarrow> xs @ c # ds = ys @ c # ds' \<Longrightarrow> xs = ys \<and> ds = ds'"
proof (induction xs arbitrary: ys)
  case Nil
  then show ?case by (cases ys) auto
next
  case (Cons x xs)
  then show ?case by (cases ys) auto
qed

lemma make_sessionId_inj:
  "(make_sessionId P t = make_sessionId P' t') = (P = P' \<and> t = t')"
proof
  assume "make_sessionId P t = make_sessionId P' t'"
  then have "P @ CHR ''_'' # number_to_string t = P' @ CHR ''_'' # number_to_string t'"
    unfolding make_sessionId_def by (simp only: append.simps list.inject simp_thms)
  from split_at_last_separator[OF number_to_string_no_underscore number_to_string_no_underscore this]
  have "P = P'" and "number_to_string t = number_to_string t'" by auto
  then show "P = P' \<and> t = t'"
    using string_to_number_number_to_string[of t] string_to_number_number_to_string[of t'] by metis
next
  assume "P = P' \<and> t = t'"
  then show "make_sessionId P t = make_sessionId P' t'" by (simp only:)
qed

section \<open>Facts about the map, the timers and the arrays\<close>

lemma activeSessions_clearSessionTimeout [simp]:
  "activeSessions (clearSessionTimeout sid cm) = activeSessions cm"
  by (simp add: clearSessionTimeout_def split: option.splits)

lemma activeSessions_setSessionTimeout [simp]:
  "activeSessions (setSessionTimeout sid cm) = activeSessions cm"
  by (simp add: setSessionTimeout_def Let_def)

lemma activeSessions_resetSessionTimeout [simp]:
  "activeSessions (resetSessionTimeout sid cm) = activeSessions cm"
  by (simp add: resetSessionTimeout_def)

lemma arrays_clearSessionTimeout [simp]:
  "arrays (clearSessionTimeout sid cm) = arrays cm"
  by (simp add: clearSessionTimeout_def split: option.splits)

lemma arrays_setSessionTimeout [simp]:
  "arrays (setSessionTimeout sid cm) = arrays cm"
  by (simp add: setSessionTimeout_def Let_def)

lemma arrays_resetSessionTimeout [simp]:
  "arrays (resetSessionTimeout sid cm) = arrays cm"
  by (simp add: resetSessionTimeout_def)

lemma keys_mutate [simp]: "map fst (mutate k f m) = map fst m"
  by (induction m) (auto simp: mutate_def)

lemma Map_get_mutate:
  "Map_get (mutate k f m) k' = (if k' = k then map_option f (Map_get m k) else Map_get m k')"
  by (induction m) (auto simp: mutate_def Map_get_def)

lemma set_mutate:
  "set (mutate k f m) = (\<lambda>(k', v). if k' = k then (k', f v) else (k', v)) ` set m"
  by (simp add: mutate_def)

lemma keys_Map_set:
  "map fst (Map_set k v m) = (if k \<in> set (map fst m) then map fst m else map fst m @ [k])"
  by (induction m) force+

lemma Map_get_Map_set:
  "Map_get (Map_set k v m) k' = (if k' = k then Some v else Map_get m k')"
  by (induction m) (auto simp: Map_get_def)

lemma Map_set_fresh: "k \<notin> fst ` set m \<Longrightarrow> Map_set k v m = m @ [(k, v)]"
  by (induction m) auto

lemma Map_set_twice: "Map_set k v (Map_set k v' m) = Map_set k v m"
  by (induction m) auto

lemma find_Map_set_only:
  "P (k, v) \<Longrightarrow> \<forall>e\<in>set m. \<not> P e \<Longrightarrow> find P (Map_set k v m) = Some (k, v)"
  by (induction m) auto

lemma Map_get_timer_set:
  "Map_get (sessionTimeouts (setSessionTimeout sid cm)) sid = Some (EndSessionAfter sid SESSION_TIMEOUT)"
  by (simp add: setSessionTimeout_def Let_def Map_get_Map_set)

lemma Map_get_timer_reset:
  "Map_get (sessionTimeouts (resetSessionTimeout sid cm)) sid = Some (EndSessionAfter sid SESSION_TIMEOUT)"
  by (simp add: resetSessionTimeout_def Map_get_timer_set)

lemma Map_get_Map_delete: "Map_get (Map_delete k m) k' = (if k' = k then None else Map_get m k')"
  by (induction m) (auto simp: Map_get_def Map_delete_def)

lemma Map_get_timer_cleared:
  "Map_get (sessionTimeouts (clearSessionTimeout sid cm)) sid = None"
  by (simp add: clearSessionTimeout_def Map_get_Map_delete split: option.splits)

lemma find_append_first:
  "find P (xs @ ys) = (case find P xs of None \<Rightarrow> find P ys | Some x \<Rightarrow> Some x)"
  by (induction xs) auto

lemma set_Map_set_subset: "set (Map_set k v m) \<subseteq> insert (k, v) (set m)"
  by (induction m) (auto split: if_splits)

lemma Map_set_mem: "(k, v) \<in> set (Map_set k v m)"
  by (induction m) auto

lemma find_active_None:
  "no_active_session P cm \<Longrightarrow>
   \<forall>e\<in>set (activeSessions cm). \<not> (case e of (sid, s) \<Rightarrow> phoneNumber s = Val P \<and> truthy (isActive s))"
  by (auto simp: no_active_session_def list_all_iff)

lemma getSession_found:
  "find (\<lambda>(sid, session). phoneNumber session = Val P \<and> truthy (isActive session)) (activeSessions cm)
     = Some (k, s)
   \<Longrightarrow> fst (getSession now P cm) = Some (s\<lparr>lastActivity := now\<rparr>)"
  by (simp add: getSession_def Let_def)

lemma find_pred_SomeD:
  "find P m = Some e \<Longrightarrow> e \<in> set m \<and> P e"
  by (auto simp: find_Some_iff)

lemma truthy_iff: "truthy b = (b = Val True)"
  by (cases b) auto

lemma Map_get_present: "k \<in> fst ` set m \<Longrightarrow> \<exists>v. Map_get m k = Some v"
proof -
  assume "k \<in> fst ` set m"
  then have "map_of m k \<noteq> None" by (simp add: map_of_eq_None_iff)
  then show ?thesis by (simp add: Map_get_def)
qed

lemma Map_get_SomeD: "Map_get m k = Some v \<Longrightarrow> (k, v) \<in> set m"
  by (simp add: Map_get_def map_of_SomeD)

lemma activeSessions_createSession:
  "activeSessions (snd (createSession t_id t_last t_start P cm))
     = Map_set (make_sessionId P t_id) (fst (createSession t_id t_last t_start P cm)) (activeSessions cm)"
  by (simp add: createSession_def new_array_def Let_def)

lemma arrays_createSession:
  "arrays (snd (createSession t_id t_last t_start P cm)) = arrays cm @ [[]]"
  by (simp add: createSession_def new_array_def Let_def)

section \<open>Statistics agree with the list of active sessions\<close>

lemma count_statuses_defined:
  "list_all (\<lambda>s. businessContext s \<noteq> Undefined) ss \<Longrightarrow> \<exists>r. count_statuses acc ss = Inr r"
  by (induction ss arbitrary: acc) (auto simp: Let_def split: js.splits)

lemma count_statuses_undefined:
  "\<not> list_all (\<lambda>s. businessContext s \<noteq> Undefined) ss \<Longrightarrow> count_statuses acc ss = Inl TypeError"
  by (induction ss arbitrary: acc) (auto simp: Let_def split: js.splits)

lemma sum_history_lengths_defined:
  "list_all (\<lambda>s. conversationHistory s \<noteq> Undefined) ss \<Longrightarrow> \<exists>r. sum_history_lengths h n ss = Inr r"
  by (induction ss arbitrary: n) (auto split: js.splits)

lemma sum_history_lengths_undefined:
  "\<not> list_all (\<lambda>s. conversationHistory s \<noteq> Undefined) ss \<Longrightarrow> sum_history_lengths h n ss = Inl TypeError"
  by (induction ss arbitrary: n) (auto split: js.splits)

lemma stats_defined_iff:
  "stats_defined cm =
     (list_all (\<lambda>s. businessContext s \<noteq> Undefined) (Map_values (activeSessions cm))
      \<and> list_all (\<lambda>s. conversationHistory s \<noteq> Undefined)
           (filter (\<lambda>s. truthy (isActive s)) (Map_values (activeSessions cm))))"
  by (auto simp: stats_defined_def Map_values_def list_all_iff)

lemma getSessionStats_defined:
  assumes "stats_defined cm"
  shows "\<exists>stats. getSessionStats cm = Inr stats
           \<and> stats_activeSessions stats = length (getActiveSessions cm)
           \<and> totalSessions stats = length (activeSessions cm)"
proof -
  let ?sessions = "Map_values (activeSessions cm)"
  let ?active = "filter (\<lambda>s. truthy (isActive s)) ?sessions"
  from assms have bc: "list_all (\<lambda>s. businessContext s \<noteq> Undefined) ?sessions"
    and hs: "list_all (\<lambda>s. conversationHistory s \<noteq> Undefined) ?active"
    by (simp_all add: stats_defined_iff)
  from count_statuses_defined[OF bc] obtain r where r: "count_statuses [] ?sessions = Inr r" by blast
  from sum_history_lengths_defined[OF hs] obtain n where
    n: "sum_history_lengths (arrays cm) 0 ?active = Inr n" by blast
  show ?thesis
    using r n by (simp add: getSessionStats_def Let_def getActiveSessions_def Map_values_def)
qed

lemma getSessionStats_undefined:
  assumes "\<not> stats_defined cm"
  shows "getSessionStats cm = Inl TypeError"
proof -
  let ?sessions = "Map_values (activeSessions cm)"
  let ?active = "filter (\<lambda>s. truthy (isActive s)) ?sessions"
  show ?thesis
  proof (cases "list_all (\<lambda>s. businessContext s \<noteq> Undefined) ?sessions")
    case False
    from count_statuses_undefined[OF this] show ?thesis
      by (simp add: getSessionStats_def Let_def)
  next
    case True
    with assms have nh: "\<not> list_all (\<lambda>s. conversationHistory s \<noteq> Undefined) ?active"
      by (simp add: stats_defined_iff)
    then have ne: "length ?active > 0" by (cases ?active) auto
    from count_statuses_defined[OF True] obtain r where r: "count_statuses [] ?sessions = Inr r" by blast
    from sum_history_lengths_undefined[OF nh]
    have "sum_history_lengths (arrays cm) 0 ?active = Inl TypeError" .
    with r ne show ?thesis by (simp add: getSessionStats_def Let_def)
  qed
qed



section \<open>Creating a session\<close>

text \<open>
  C4, as the code has it. For every phone number \<open>P\<close>, \<open>createSession(P)\<close> returns a session
  whose \<open>conversationHistory\<close> is a new, empty array, whose \<open>businessContext\<close> is the default
  one with \<open>trialStatus\<close> \<open>prospect\<close>, whose \<open>isActive\<close> is true, whose \<open>phoneNumber\<close> is
  \<open>P\<close>, whose \<open>lastActivity\<close> and \<open>startTime\<close> are the clock values read for them, and whose
  \<open>sessionId\<close> is \<open>whatsapp_\<close>, \<open>P\<close>, an underscore and the clock value read for the id in
  decimal. The id determines \<open>P\<close> and that clock value: two calls generate the same id exactly
  when they have the same phone number and read the same clock value. The session is stored
  under its id and its timer armed: as a new last entry of the map when nothing is stored under
  the id, and otherwise in the place of the session stored under it; the other entries stay.
\<close>

theorem createSession_result:
  "(case createSession t_id t_last t_start P cm of (s, cm') \<Rightarrow>
      conversationHistory s = Val (length (arrays cm))
      \<and> arrays cm' = arrays cm @ [[]]
      \<and> history_of cm' s = Some []
      \<and> businessContext s = Val \<lparr>name = None, industry = None, trialStatus = Prospect,
                                    signupDate = None, lastPayment = None\<rparr>
      \<and> isActive s = Val True
      \<and> phoneNumber s = Val P
      \<and> agent s = Val Lexi
      \<and> lastActivity s = t_last
      \<and> startTime s = Val t_start
      \<and> sessionId s = Val (''whatsapp_'' @ P @ ''_'' @ number_to_string t_id)
      \<and> Map_get (activeSessions cm') (make_sessionId P t_id) = Some s
      \<and> map fst (activeSessions cm')
          = (if make_sessionId P t_id \<in> set (map fst (activeSessions cm))
             then map fst (activeSessions cm)
             else map fst (activeSessions cm) @ [make_sessionId P t_id])
      \<and> (\<forall>k. k \<noteq> make_sessionId P t_id \<longrightarrow>
            Map_get (activeSessions cm') k = Map_get (activeSessions cm) k)
      \<and> Map_get (sessionTimeouts cm') (make_sessionId P t_id)
          = Some (EndSessionAfter (make_sessionId P t_id) SESSION_TIMEOUT))
   \<and> make_sessionId P t_id = ''whatsapp_'' @ P @ ''_'' @ number_to_string t_id
   \<and> string_to_number (number_to_string t_id) = t_id
   \<and> ((make_sessionId P t_id = make_sessionId P' t') = (P = P' \<and> t_id = t'))"
proof -
  obtain s cm' where c: "createSession t_id t_last t_start P cm = (s, cm')"
    by (cases "createSession t_id t_last t_start P cm")
  then have s: "s = fst (createSession t_id t_last t_start P cm)"
    and cm': "cm' = snd (createSession t_id t_last t_start P cm)" by simp_all
  have fields: "conversationHistory s = Val (length (arrays cm))"
    "businessContext s = Val \<lparr>name = None, industry = None, trialStatus = Prospect,
                                    signupDate = None, lastPayment = None\<rparr>"
    "isActive s = Val True" "phoneNumber s = Val P" "agent s = Val Lexi"
    "lastActivity s = t_last" "startTime s = Val t_start"
    "sessionId s = Val (''whatsapp_'' @ P @ ''_'' @ number_to_string t_id)"
    unfolding s by (simp_all add: createSession_def new_array_def Let_def make_sessionId_def)
  have arr: "arrays cm' = arrays cm @ [[]]"
    unfolding cm' by (rule arrays_createSession)
  have hist: "history_of cm' s = Some []"
    using fields(1) arr by (simp add: history_of_def)
  have m: "activeSessions cm' = Map_set (make_sessionId P t_id) s (activeSessions cm)"
    unfolding cm' s by (rule activeSessions_createSession)
  have stored: "Map_get (activeSessions cm') (make_sessionId P t_id) = Some s"
    unfolding m by (simp add: Map_get_Map_set)
  have keys: "map fst (activeSessions cm')
          = (if make_sessionId P t_id \<in> set (map fst (activeSessions cm))
             then map fst (activeSessions cm)
             else map fst (activeSessions cm) @ [make_sessionId P t_id])"
    unfolding m by (rule keys_Map_set)
  have others: "\<forall>k. k \<noteq> make_sessionId P t_id \<longrightarrow>
            Map_get (activeSessions cm') k = Map_get (activeSessions cm) k"
    unfolding m by (simp add: Map_get_Map_set)
  have timer: "Map_get (sessionTimeouts cm') (make_sessionId P t_id)
          = Some (EndSessionAfter (make_sessionId P t_id) SESSION_TIMEOUT)"
    unfolding cm' by (simp add: createSession_def new_array_def Let_def Map_get_timer_set)
  have id: "make_sessionId P t_id = ''whatsapp_'' @ P @ ''_'' @ number_to_string t_id"
    by (simp add: make_sessionId_def)
  show ?thesis
    unfolding c
    using fields arr hist stored keys others timer id
      string_to_number_number_to_string[of t_id] make_sessionId_inj[of P t_id P' t']
    by simp
qed

theorem createSession_result_witness:
  "sessionId (fst (createSession 1730000000123 1730000000124 1730000000125 ''+2348011111111'' example_chat))
     = Val ''whatsapp_+2348011111111_1730000000123''
   \<and> lastActivity (fst (createSession 1730000000123 1730000000124 1730000000125 ''+2348011111111'' example_chat))
     = 1730000000124
   \<and> startTime (fst (createSession 1730000000123 1730000000124 1730000000125 ''+2348011111111'' example_chat))
     = Val 1730000000125
   \<and> conversationHistory
        (fst (createSession 1730000000123 1730000000124 1730000000125 ''+2348011111111'' example_chat))
     = Val 1
   \<and> map fst (activeSessions
        (snd (createSession 1730000000123 1730000000124 1730000000125 ''+2348011111111'' example_chat)))
     = [''whatsapp_+1_5'', ''whatsapp_+2348011111111_1730000000123'']
   \<and> string_to_number ''1730000000123'' = 1730000000123"
proof -
  have id: "make_sessionId ''+2348011111111'' 1730000000123 = ''whatsapp_+2348011111111_1730000000123''"
    by (simp add: make_sessionId_def number_to_string_def nat_to_string.simps digit_char_def)
  have num: "number_to_string 1730000000123 = ''1730000000123''"
    by (simp add: number_to_string_def nat_to_string.simps digit_char_def)
  have keys: "map fst (activeSessions example_chat) = [''whatsapp_+1_5'']"
    by code_simp
  have arr: "length (arrays example_chat) = 1"
    by code_simp
  show ?thesis
    using id num keys arr
      createSession_result [where t_id = 1730000000123 and t_last = 1730000000124
        and t_start = 1730000000125 and P = "''+2348011111111''" and cm = example_chat]
    by (simp add: case_prod_beta)
qed

text \<open>
  The claim as written fails where it calls the id fresh. In \<open>example_chat\<close> the session
  created for \<open>+1\<close> at clock value 5 is stored with one message in its history. A
  \<open>createSession\<close> for \<open>+1\<close> that reads the clock value 5 again returns the id that is
  stored, and the map then holds one entry under it: the new session, with an empty history.
\<close>

theorem createSession_same_id_counterexample:
  "map_option sessionId (Map_get (activeSessions example_chat) ''whatsapp_+1_5'')
     = Some (Val ''whatsapp_+1_5'')
   \<and> map_option (history_of example_chat) (Map_get (activeSessions example_chat) ''whatsapp_+1_5'')
     = Some (Some [example_message])
   \<and> sessionId (fst (createSession 5 9 9 ''+1'' example_chat)) = Val ''whatsapp_+1_5''
   \<and> map fst (activeSessions (snd (createSession 5 9 9 ''+1'' example_chat))) = [''whatsapp_+1_5'']
   \<and> map_option (history_of (snd (createSession 5 9 9 ''+1'' example_chat)))
        (Map_get (activeSessions (snd (createSession 5 9 9 ''+1'' example_chat))) ''whatsapp_+1_5'')
     = Some (Some [])"
  by code_simp

section \<open>Looking a session up by phone number\<close>

text \<open>
  C3. For every phone number \<open>P\<close>, \<open>getSession(P)\<close> returns a session only if that session
  is stored with \<open>phoneNumber\<close> \<open>P\<close> and \<open>isActive\<close> true; on such a hit the session, in the
  store and as returned, has \<open>lastActivity\<close> set to the current time. When no active session
  for \<open>P\<close> is stored the result is null and the store is unchanged; when one is stored the
  result is not null.
\<close>

theorem getSession_result:
  "(getSession now P cm = (Some s, cm') \<longrightarrow>
       phoneNumber s = Val P \<and> isActive s = Val True \<and> lastActivity s = now
       \<and> (\<exists>sid s0. (sid, s0) \<in> set (activeSessions cm) \<and> phoneNumber s0 = Val P
             \<and> isActive s0 = Val True
             \<and> s = s0\<lparr>lastActivity := now\<rparr> \<and> (sid, s) \<in> set (activeSessions cm')))
   \<and> ((\<forall>(sid, s0) \<in> set (activeSessions cm). \<not> (phoneNumber s0 = Val P \<and> isActive s0 = Val True)) \<longrightarrow>
         getSession now P cm = (None, cm))
   \<and> ((\<exists>(sid, s0) \<in> set (activeSessions cm). phoneNumber s0 = Val P \<and> isActive s0 = Val True) \<longrightarrow>
         fst (getSession now P cm) \<noteq> None)"
proof (intro conjI impI)
  assume h: "getSession now P cm = (Some s, cm')"
  then obtain sid s0 where
    f: "find (\<lambda>(sid, session). phoneNumber session = Val P \<and> truthy (isActive session))
                (activeSessions cm) = Some (sid, s0)" and s: "s = s0\<lparr>lastActivity := now\<rparr>"
     and cm': "activeSessions cm' = mutate sid (\<lambda>s. s\<lparr>lastActivity := now\<rparr>) (activeSessions cm)"
    by (auto simp: getSession_def Let_def split: option.splits prod.splits)
  from find_pred_SomeD[OF f]
  have m: "(sid, s0) \<in> set (activeSessions cm)" and p: "phoneNumber s0 = Val P" "isActive s0 = Val True"
    by (auto simp: truthy_iff)
  show "phoneNumber s = Val P" "isActive s = Val True" "lastActivity s = now" using s p by auto
  have "(sid, s) \<in> set (activeSessions cm')" unfolding cm' set_mutate s using m by force
  then show "\<exists>sid s0. (sid, s0) \<in> set (activeSessions cm) \<and> phoneNumber s0 = Val P
             \<and> isActive s0 = Val True
             \<and> s = s0\<lparr>lastActivity := now\<rparr> \<and> (sid, s) \<in> set (activeSessions cm')"
    using m p s by blast
next
  assume "\<forall>(sid, s0) \<in> set (activeSessions cm). \<not> (phoneNumber s0 = Val P \<and> isActive s0 = Val True)"
  then have "find (\<lambda>(sid, session). phoneNumber session = Val P \<and> truthy (isActive session))
                (activeSessions cm) = None"
    by (auto simp: find_None_iff truthy_iff)
  then show "getSession now P cm = (None, cm)" by (simp add: getSession_def)
next
  assume "\<exists>(sid, s0) \<in> set (activeSessions cm). phoneNumber s0 = Val P \<and> isActive s0 = Val True"
  then have "find (\<lambda>(sid, session). phoneNumber session = Val P \<and> truthy (isActive session))
                (activeSessions cm) \<noteq> None"
    by (auto simp: find_None_iff truthy_iff)
  then show "fst (getSession now P cm) \<noteq> None"
    by (auto simp: getSession_def Let_def split: option.splits prod.splits)
qed

theorem getSession_result_witness:
  "getSession 9 ''+1'' example_store
     = (Some (the (fst (getSession 9 ''+1'' example_store))), snd (getSession 9 ''+1'' example_store))
   \<and> phoneNumber (the (fst (getSession 9 ''+1'' example_store))) = Val ''+1''
   \<and> isActive (the (fst (getSession 9 ''+1'' example_store))) = Val True
   \<and> lastActivity (the (fst (getSession 9 ''+1'' example_store))) = 9
   \<and> no_active_session ''+2'' example_store
   \<and> getSession 9 ''+2'' example_store = (None, example_store)"
proof -
  have hit: "getSession 9 ''+1'' example_store
     = (Some (the (fst (getSession 9 ''+1'' example_store))), snd (getSession 9 ''+1'' example_store))"
    by code_simp
  have none: "no_active_session ''+2'' example_store"
    by code_simp
  then have miss: "\<forall>(sid, s0) \<in> set (activeSessions example_store).
      \<not> (phoneNumber s0 = Val ''+2'' \<and> isActive s0 = Val True)"
    by (simp add: no_active_session_def list_all_iff truthy_iff)
  show ?thesis
    using hit none miss
      getSession_result [where now = 9 and P = "''+1''" and cm = example_store
        and s = "the (fst (getSession 9 ''+1'' example_store))"
        and cm' = "snd (getSession 9 ''+1'' example_store)"]
      getSession_result [where now = 9 and P = "''+2''" and cm = example_store]
    by blast
qed

section \<open>Ending a session\<close>

text \<open>
  C2, as the code has it. \<open>endSession(s)\<close> returns false, and changes nothing, exactly when no
  session is stored under \<open>s\<close>. When one is stored, also one that was ended before, it returns
  true, the stored session is inactive afterwards and no timer is pending for \<open>s\<close>.
\<close>

theorem endSession_result:
  "(Map_get (activeSessions cm) sid = None \<longrightarrow> endSession sid cm = (False, cm))
   \<and> (Map_get (activeSessions cm) sid = Some s \<longrightarrow>
        fst (endSession sid cm) = True
        \<and> Map_get (activeSessions (snd (endSession sid cm))) sid = Some (s\<lparr>isActive := Val False\<rparr>)
        \<and> Map_get (sessionTimeouts (snd (endSession sid cm))) sid = None
        \<and> arrays (snd (endSession sid cm)) = arrays cm)"
  by (simp add: endSession_def Let_def Map_get_mutate Map_get_timer_cleared)

theorem endSession_result_witness:
  "Map_get (activeSessions example_store) ''whatsapp_+2_5'' = None
   \<and> endSession ''whatsapp_+2_5'' example_store = (False, example_store)
   \<and> Map_get (activeSessions example_store) ''whatsapp_+1_5'' = Some example_session
   \<and> fst (endSession ''whatsapp_+1_5'' example_store) = True
   \<and> Map_get (activeSessions (snd (endSession ''whatsapp_+1_5'' example_store))) ''whatsapp_+1_5''
       = Some (example_session\<lparr>isActive := Val False\<rparr>)
   \<and> Map_get (sessionTimeouts (snd (endSession ''whatsapp_+1_5'' example_store))) ''whatsapp_+1_5'' = None"
proof -
  have absent: "Map_get (activeSessions example_store) ''whatsapp_+2_5'' = None"
    by code_simp
  have present: "Map_get (activeSessions example_store) ''whatsapp_+1_5'' = Some example_session"
    by code_simp
  show ?thesis
    using absent present
      endSession_result [where cm = example_store and sid = "''whatsapp_+2_5''"]
      endSession_result [where cm = example_store and sid = "''whatsapp_+1_5''"
        and s = example_session]
    by blast
qed

text \<open>
  The claim as written fails: ending the session of \<open>example_store\<close> succeeds and leaves it
  inactive, and ending it a second time returns true again, not the not-found outcome.
\<close>

theorem endSession_twice_counterexample:
  "fst (endSession ''whatsapp_+1_5'' example_store) = True
   \<and> map_option isActive
        (Map_get (activeSessions (snd (endSession ''whatsapp_+1_5'' example_store))) ''whatsapp_+1_5'')
       = Some (Val False)
   \<and> fst (endSession ''whatsapp_+1_5'' (snd (endSession ''whatsapp_+1_5'' example_store))) = True"
  by code_simp

section \<open>Creating, then looking up\<close>

text \<open>
  C5. Let no active session for \<open>P\<close> be stored. After \<open>createSession(P)\<close>, \<open>getSession(P)\<close>
  returns a session with the id that \<open>createSession\<close> returned. After a second
  \<open>createSession(P)\<close> without ending the first, \<open>getSession(P)\<close> returns exactly one session,
  fixed by the order of the map: it is active, it is for \<open>P\<close>, its id is one of the two ids
  created, and it is the id of the first call whenever the second call's id was not stored
  before (or the two calls read the same clock value).
\<close>

theorem create_then_getSession:
  "no_active_session P cm \<Longrightarrow>
     map_option sessionId (fst (getSession now P (snd (createSession t1 a1 b1 P cm))))
       = Some (sessionId (fst (createSession t1 a1 b1 P cm)))
     \<and> (t2 = t1 \<or> make_sessionId P t2 \<notin> fst ` set (activeSessions cm) \<longrightarrow>
          map_option sessionId
            (fst (getSession now P (snd (createSession t2 a2 b2 P (snd (createSession t1 a1 b1 P cm))))))
          = Some (sessionId (fst (createSession t1 a1 b1 P cm))))
     \<and> (\<exists>s. fst (getSession now P (snd (createSession t2 a2 b2 P (snd (createSession t1 a1 b1 P cm))))) = Some s
            \<and> phoneNumber s = Val P \<and> isActive s = Val True
            \<and> (sessionId s = sessionId (fst (createSession t1 a1 b1 P cm))
                \<or> sessionId s = sessionId (fst (createSession t2 a2 b2 P (snd (createSession t1 a1 b1 P cm))))))"
proof -
  assume na: "no_active_session P cm"
  let ?pred = "\<lambda>(sid, session). phoneNumber session = Val P \<and> truthy (isActive session)"
  define m where "m = activeSessions cm"
  define sid1 where "sid1 = make_sessionId P t1"
  define sid2 where "sid2 = make_sessionId P t2"
  define s1 where "s1 = fst (createSession t1 a1 b1 P cm)"
  define cm1 where "cm1 = snd (createSession t1 a1 b1 P cm)"
  define s2 where "s2 = fst (createSession t2 a2 b2 P cm1)"
  define cm2 where "cm2 = snd (createSession t2 a2 b2 P cm1)"
  have none: "\<forall>e\<in>set m. \<not> ?pred e"
    using find_active_None[OF na] by (simp add: m_def)
  have s1: "sessionId s1 = Val sid1" "phoneNumber s1 = Val P" "isActive s1 = Val True"
    by (simp_all add: s1_def sid1_def createSession_def new_array_def Let_def)
  have s2: "sessionId s2 = Val sid2" "phoneNumber s2 = Val P" "isActive s2 = Val True"
    by (simp_all add: s2_def sid2_def createSession_def new_array_def Let_def)
  have m1: "activeSessions cm1 = Map_set sid1 s1 m"
    unfolding cm1_def s1_def sid1_def m_def by (rule activeSessions_createSession)
  have m2: "activeSessions cm2 = Map_set sid2 s2 (Map_set sid1 s1 m)"
    unfolding cm2_def s2_def sid2_def m1 [symmetric] by (rule activeSessions_createSession)
  have f1: "find ?pred (activeSessions cm1) = Some (sid1, s1)"
    unfolding m1 using none s1 by (intro find_Map_set_only) auto
  have part1: "map_option sessionId (fst (getSession now P cm1)) = Some (sessionId s1)"
    using getSession_found[OF f1] by simp
  have part2: "map_option sessionId (fst (getSession now P cm2)) = Some (sessionId s1)"
    if h: "t2 = t1 \<or> sid2 \<notin> fst ` set m"
  proof (cases "sid2 = sid1")
    case True
    have "activeSessions cm2 = Map_set sid1 s2 m"
      unfolding m2 True by (rule Map_set_twice)
    then have "find ?pred (activeSessions cm2) = Some (sid1, s2)"
      using none s2 by (simp add: find_Map_set_only)
    from getSession_found[OF this] show ?thesis using s1 s2 True by simp
  next
    case False
    with h have "sid2 \<notin> fst ` set m" by (auto simp: sid1_def sid2_def)
    with False have "sid2 \<notin> fst ` set (Map_set sid1 s1 m)"
      using set_Map_set_subset[of sid1 s1 m] by force
    then have "activeSessions cm2 = Map_set sid1 s1 m @ [(sid2, s2)]"
      unfolding m2 by (rule Map_set_fresh)
    then have "find ?pred (activeSessions cm2) = Some (sid1, s1)"
      using f1 by (simp add: find_append_first m1)
    from getSession_found[OF this] show ?thesis by simp
  qed
  have "?pred (sid2, s2)" using s2 by simp
  moreover have "(sid2, s2) \<in> set (activeSessions cm2)"
    unfolding m2 by (rule Map_set_mem)
  ultimately have "find ?pred (activeSessions cm2) \<noteq> None"
    unfolding find_None_iff by blast
  then obtain k s where f2: "find ?pred (activeSessions cm2) = Some (k, s)"
    by (cases "find ?pred (activeSessions cm2)") auto
  from find_pred_SomeD[OF f2] have mem: "(k, s) \<in> set (activeSessions cm2)" and p: "?pred (k, s)"
    by auto
  from mem have "(k, s) = (sid2, s2) \<or> (k, s) = (sid1, s1) \<or> (k, s) \<in> set m"
    unfolding m2 using set_Map_set_subset[of sid2 s2 "Map_set sid1 s1 m"]
      set_Map_set_subset[of sid1 s1 m] by blast
  with p none have "s = s2 \<or> s = s1" by blast
  with p have part3: "\<exists>s'. fst (getSession now P cm2) = Some s' \<and> phoneNumber s' = Val P
      \<and> isActive s' = Val True
      \<and> (sessionId s' = sessionId s1 \<or> sessionId s' = sessionId s2)"
    using getSession_found[OF f2] by (auto simp: truthy_iff)
  show ?thesis
    using part1 part2 part3 unfolding cm1_def cm2_def s1_def s2_def sid2_def m_def by blast
qed

theorem create_then_getSession_witness:
  "no_active_session ''+1'' initial
   \<and> map_option sessionId (fst (getSession 9 ''+1'' (snd (createSession 5 5 5 ''+1'' initial))))
       = Some (Val ''whatsapp_+1_5'')
   \<and> map_option sessionId
        (fst (getSession 9 ''+1''
           (snd (createSession 6 6 6 ''+1'' (snd (createSession 5 5 5 ''+1'' initial))))))
       = Some (Val ''whatsapp_+1_5'')"
proof -
  have none: "no_active_session ''+1'' initial"
    by code_simp
  have fresh: "make_sessionId ''+1'' 6 \<notin> fst ` set (activeSessions initial)"
    by code_simp
  have id: "sessionId (fst (createSession 5 5 5 ''+1'' initial)) = Val ''whatsapp_+1_5''"
    by code_simp
  show ?thesis
    using none fresh id
      create_then_getSession [OF none, where now = 9 and ?t1.0 = 5 and ?a1.0 = 5 and ?b1.0 = 5
        and ?t2.0 = 6 and ?a2.0 = 6 and ?b2.0 = 6]
    by simp
qed

section \<open>What an operation can do to the stored sessions\<close>

lemma sessions_rel_refl: "(\<And>s. R s s) \<Longrightarrow> sessions_rel R m m"
  by (auto simp: sessions_rel_def list_all2_same)

lemma sessions_rel_trans:
  assumes "\<And>a b c. R a b \<Longrightarrow> R b c \<Longrightarrow> R a c"
  shows "sessions_rel R m m' \<Longrightarrow> sessions_rel R m' m'' \<Longrightarrow> sessions_rel R m m''"
proof -
  let ?P = "\<lambda>(k, s) (k', s'). k' = k \<and> R s s'"
  have "\<And>a b c. ?P a b \<Longrightarrow> ?P b c \<Longrightarrow> ?P a c"
    by (clarsimp) (blast intro: assms)
  then show "sessions_rel R m m' \<Longrightarrow> sessions_rel R m' m'' \<Longrightarrow> sessions_rel R m m''"
    unfolding sessions_rel_def by (rule list_all2_trans)
qed

lemma sessions_rel_mutate:
  "(\<And>s. R s s) \<Longrightarrow> (\<And>s. R s (f s)) \<Longrightarrow> sessions_rel R m (mutate k f m)"
  by (induction m) (auto simp: sessions_rel_def mutate_def split: if_splits)

lemma sessions_rel_keys: "sessions_rel R m m' \<Longrightarrow> map fst m' = map fst m"
  unfolding sessions_rel_def by (induction m m' rule: list_all2_induct) auto

lemma sessions_rel_get:
  "sessions_rel R m m' \<Longrightarrow> Map_get m k = Some s \<Longrightarrow> \<exists>s'. Map_get m' k = Some s' \<and> R s s'"
  unfolding sessions_rel_def Map_get_def
  by (induction m m' rule: list_all2_induct) (auto split: if_splits)

lemma sessions_rel_mem:
  "sessions_rel R m m' \<Longrightarrow> (k, s') \<in> set m' \<Longrightarrow> \<exists>s. (k, s) \<in> set m \<and> R s s'"
  unfolding sessions_rel_def
  by (induction m m' rule: list_all2_induct) auto

lemma endSession_rel:
  assumes r: "\<And>s. R s s" and d: "\<And>s. R s (s\<lparr>isActive := Val False\<rparr>)"
  shows "sessions_rel R (activeSessions cm) (activeSessions (snd (endSession sid cm)))"
proof (cases "Map_get (activeSessions cm) sid")
  case None
  then show ?thesis by (simp add: endSession_def sessions_rel_refl[of R, OF r])
next
  case (Some a)
  have "sessions_rel R (activeSessions cm) (mutate sid (\<lambda>s. s\<lparr>isActive := Val False\<rparr>) (activeSessions cm))"
    by (rule sessions_rel_mutate) (rule r, rule d)
  with Some show ?thesis by (simp add: endSession_def Let_def)
qed

lemma arrays_endSession [simp]: "arrays (snd (endSession sid cm)) = arrays cm"
  by (simp add: endSession_def Let_def split: option.splits)

lemma cleanup_loop_rel:
  assumes r: "\<And>s. R s s" and t: "\<And>a b c. R a b \<Longrightarrow> R b c \<Longrightarrow> R a c"
    and d: "\<And>s. R s (s\<lparr>isActive := Val False\<rparr>)"
  shows "sessions_rel R (activeSessions cm) (activeSessions (fst (cleanup_loop now es (cm, n))))"
proof (induction es arbitrary: cm n)
  case Nil
  show ?case by (simp add: sessions_rel_refl[of R, OF r])
next
  case (Cons e es)
  obtain sid session where e: "e = (sid, session)" by (cases e)
  show ?case
  proof (cases "\<not> truthy (isActive session) \<or> now - lastActivity session > SESSION_TIMEOUT")
    case True
    have a: "sessions_rel R (activeSessions cm) (activeSessions (snd (endSession sid cm)))"
      by (rule endSession_rel) (rule r, rule d)
    have b: "sessions_rel R (activeSessions (snd (endSession sid cm)))
        (activeSessions (fst (cleanup_loop now es (snd (endSession sid cm), n + 1))))"
      by (rule Cons.IH)
    have "sessions_rel R (activeSessions cm)
        (activeSessions (fst (cleanup_loop now es (snd (endSession sid cm), n + 1))))"
      by (rule sessions_rel_trans[of R, OF t a b])
    moreover have "cleanup_loop now (e # es) (cm, n)
        = cleanup_loop now es (snd (endSession sid cm), n + 1)"
      using True unfolding e by simp
    ultimately show ?thesis by simp
  next
    case False
    then have "cleanup_loop now (e # es) (cm, n) = cleanup_loop now es (cm, n)"
      unfolding e by simp
    then show ?thesis using Cons.IH[of cm n] by simp
  qed
qed

lemma arrays_cleanup_loop: "arrays (fst (cleanup_loop now es (cm, n))) = arrays cm"
proof (induction es arbitrary: cm n)
  case Nil
  show ?case by simp
next
  case (Cons e es)
  obtain sid session where e: "e = (sid, session)" by (cases e)
  show ?case unfolding e using Cons.IH[of "snd (endSession sid cm)" "n + 1"] Cons.IH[of cm n]
    by simp
qed

lemma getSession_rel:
  assumes r: "\<And>s. R s s" and l: "\<And>s t. R s (s\<lparr>lastActivity := t\<rparr>)"
  shows "sessions_rel R (activeSessions cm) (activeSessions (snd (getSession now P cm)))"
proof (cases "find (\<lambda>(sid, session). phoneNumber session = Val P \<and> truthy (isActive session))
    (activeSessions cm)")
  case None
  then show ?thesis by (simp add: getSession_def sessions_rel_refl[of R, OF r])
next
  case (Some e)
  obtain k s0 where e: "e = (k, s0)" by (cases e)
  have "sessions_rel R (activeSessions cm) (mutate k (\<lambda>s. s\<lparr>lastActivity := now\<rparr>) (activeSessions cm))"
    by (rule sessions_rel_mutate) (rule r, rule l)
  with Some e show ?thesis by (simp add: getSession_def Let_def)
qed

lemma arrays_getSession [simp]: "arrays (snd (getSession now P cm)) = arrays cm"
  by (simp add: getSession_def Let_def split: option.splits prod.splits)

lemma getSessionById_rel:
  assumes r: "\<And>s. R s s" and l: "\<And>s t. R s (s\<lparr>lastActivity := t\<rparr>)"
  shows "sessions_rel R (activeSessions cm) (activeSessions (snd (getSessionById now sid cm)))"
proof (cases "Map_get (activeSessions cm) sid")
  case None
  then show ?thesis by (simp add: getSessionById_def sessions_rel_refl[of R, OF r])
next
  case (Some a)
  have "sessions_rel R (activeSessions cm) (mutate sid (\<lambda>s. s\<lparr>lastActivity := now\<rparr>) (activeSessions cm))"
    by (rule sessions_rel_mutate) (rule r, rule l)
  with Some show ?thesis by (simp add: getSessionById_def Let_def sessions_rel_refl[of R, OF r])
qed

lemma arrays_getSessionById [simp]: "arrays (snd (getSessionById now sid cm)) = arrays cm"
  by (simp add: getSessionById_def Let_def split: option.splits)

lemma exec_addMessageToSession:
  "exec (AddMessageToSession now sid message) cm =
     (case Map_get (activeSessions cm) sid of
        None \<Rightarrow> cm
      | Some session \<Rightarrow>
          (case conversationHistory session of
             Undefined \<Rightarrow> cm
           | Val a \<Rightarrow>
               resetSessionTimeout sid
                 (cm\<lparr>arrays := array_push a message (arrays cm),
                     activeSessions := mutate sid (\<lambda>s. s\<lparr>lastActivity := now\<rparr>) (activeSessions cm)\<rparr>)))"
  by (simp add: addMessageToSession_def Let_def split: option.splits js.splits)

lemma addMessageToSession_rel:
  assumes r: "\<And>s. R s s" and l: "\<And>s t. R s (s\<lparr>lastActivity := t\<rparr>)"
  shows "sessions_rel R (activeSessions cm) (activeSessions (exec (AddMessageToSession now sid message) cm))"
proof -
  have "sessions_rel R (activeSessions cm) (mutate sid (\<lambda>s. s\<lparr>lastActivity := now\<rparr>) (activeSessions cm))"
    by (rule sessions_rel_mutate) (rule r, rule l)
  then show ?thesis
    unfolding exec_addMessageToSession
    by (simp add: sessions_rel_refl[of R, OF r] split: option.splits js.splits)
qed

lemma updateSession_rel:
  assumes r: "\<And>s. R s s" and u: "\<And>s. R s ((object_assign s updates)\<lparr>lastActivity := now\<rparr>)"
  shows "sessions_rel R (activeSessions cm) (activeSessions (snd (updateSession now sid updates cm)))"
proof (cases "Map_get (activeSessions cm) sid")
  case None
  then show ?thesis by (simp add: updateSession_def sessions_rel_refl[of R, OF r])
next
  case (Some x)
  have "sessions_rel R (activeSessions cm)
     (mutate sid (\<lambda>s. (object_assign s updates)\<lparr>lastActivity := now\<rparr>) (activeSessions cm))"
    by (rule sessions_rel_mutate) (rule r, rule u)
  with Some show ?thesis by (simp add: updateSession_def Let_def)
qed

lemma arrays_updateSession [simp]: "arrays (snd (updateSession now sid updates cm)) = arrays cm"
  by (simp add: updateSession_def Let_def split: option.splits)

lemma exec_rel:
  assumes "\<And>s. R s s" and "\<And>a b c. R a b \<Longrightarrow> R b c \<Longrightarrow> R a c"
    and "\<And>s. R s (s\<lparr>isActive := Val False\<rparr>)"
    and "\<And>s t. R s (s\<lparr>lastActivity := t\<rparr>)"
    and "\<And>now sid u s. op = UpdateSession now sid u \<Longrightarrow> R s ((object_assign s u)\<lparr>lastActivity := now\<rparr>)"
    and "\<And>a b c P. op \<noteq> CreateSession a b c P"
  shows "sessions_rel R (activeSessions cm) (activeSessions (exec op cm))"
proof (cases op)
  case (CreateSession a b c P)
  then show ?thesis using assms(6) by simp
next
  case (GetSession now P)
  then show ?thesis by (simp add: getSession_rel[of R, OF assms(1) assms(4)])
next
  case (GetSessionById now sid)
  then show ?thesis by (simp add: getSessionById_rel[of R, OF assms(1) assms(4)])
next
  case (UpdateSession now sid u)
  then show ?thesis by (simp add: updateSession_rel[of R, OF assms(1) assms(5)])
next
  case (AddMessageToSession now sid msg)
  then show ?thesis by (simp only: addMessageToSession_rel[of R, OF assms(1) assms(4)])
next
  case (EndSession sid)
  then show ?thesis by (simp add: endSession_rel[of R, OF assms(1) assms(3)])
next
  case (CleanupExpiredSessions now)
  then show ?thesis
    by (simp add: cleanupExpiredSessions_def cleanup_loop_rel[of R, OF assms(1) assms(2) assms(3)])
next
  case (TimeoutFires sid)
  then show ?thesis
    by (simp add: endSession_rel[of R, OF assms(1) assms(3)] sessions_rel_refl[of R, OF assms(1)]
          split: option.splits Timeout.splits)
next
  case (NewArray xs)
  then show ?thesis by (simp add: new_array_def sessions_rel_refl[of R, OF assms(1)])
qed (simp_all add: sessions_rel_refl[of R, OF assms(1)])

lemma exec_keys:
  "\<exists>ks. map fst (activeSessions (exec op cm)) = map fst (activeSessions cm) @ ks"
proof (cases "\<exists>a b c P. op = CreateSession a b c P")
  case True
  then show ?thesis
    by (auto simp: activeSessions_createSession keys_Map_set)
next
  case False
  then have "sessions_rel (\<lambda>s s'. True) (activeSessions cm) (activeSessions (exec op cm))"
    by (intro exec_rel) auto
  then show ?thesis by (simp add: sessions_rel_keys)
qed

lemma run_keys:
  "\<exists>ks. map fst (activeSessions (run ops cm)) = map fst (activeSessions cm) @ ks"
proof (induction ops arbitrary: cm)
  case Nil
  then show ?case by simp
next
  case (Cons op ops)
  obtain ks where 1: "map fst (activeSessions (exec op cm)) = map fst (activeSessions cm) @ ks"
    using exec_keys by blast
  obtain ks' where "map fst (activeSessions (run ops (exec op cm))) = map fst (activeSessions (exec op cm)) @ ks'"
    using Cons.IH by blast
  with 1 show ?case by simp
qed

lemma run_append: "run (ops @ ops') cm = run ops' (run ops cm)"
  by (induction ops arbitrary: cm) simp_all

text \<open>The association list is a map: a run from the empty store never holds a key twice.\<close>

lemma distinct_keys_exec:
  assumes "distinct (map fst (activeSessions cm))"
  shows "distinct (map fst (activeSessions (exec op cm)))"
proof (cases "\<exists>a b c P. op = CreateSession a b c P")
  case True
  then show ?thesis
    using assms by (auto simp: activeSessions_createSession keys_Map_set)
next
  case False
  then have "sessions_rel (\<lambda>s s'. True) (activeSessions cm) (activeSessions (exec op cm))"
    by (intro exec_rel) auto
  then show ?thesis using assms by (simp add: sessions_rel_keys)
qed

lemma distinct_keys_run:
  "distinct (map fst (activeSessions cm)) \<Longrightarrow> distinct (map fst (activeSessions (run ops cm)))"
  by (induction ops arbitrary: cm) (simp_all add: distinct_keys_exec)

subsection \<open>Arrays only grow\<close>

lemma arrays_extended_refl: "arrays_extended h h"
  by (simp add: arrays_extended_def)

lemma arrays_extended_trans:
  assumes "arrays_extended h h'" and "arrays_extended h' h''"
  shows "arrays_extended h h''"
  unfolding arrays_extended_def
proof (intro conjI allI impI)
  show "length h \<le> length h''" using assms by (simp add: arrays_extended_def)
next
  fix a assume a: "a < length h"
  with assms(1) obtain ms where 1: "h' ! a = h ! a @ ms" and "a < length h'"
    by (auto simp: arrays_extended_def)
  with assms(2) obtain ms' where "h'' ! a = h' ! a @ ms'"
    by (auto simp: arrays_extended_def)
  with 1 show "\<exists>ms. h'' ! a = h ! a @ ms" by simp
qed

lemma arrays_extended_push: "arrays_extended h (array_push a message h)"
  unfolding arrays_extended_def array_push_def
proof (intro conjI allI impI)
  show "length h \<le> length (h[a := h ! a @ [message]])" by simp
next
  fix b assume "b < length h"
  then show "\<exists>ms. h[a := h ! a @ [message]] ! b = h ! b @ ms"
    by (cases "b = a") simp_all
qed

lemma arrays_extended_new: "arrays_extended h (h @ [xs])"
  by (auto simp: arrays_extended_def nth_append)

lemma arrays_extended_exec: "arrays_extended (arrays cm) (arrays (exec op cm))"
proof (cases op)
  case (CreateSession a b c P)
  then show ?thesis by (simp add: arrays_createSession arrays_extended_new)
next
  case (AddMessageToSession now sid msg)
  then show ?thesis
    by (simp only: exec_addMessageToSession)
       (simp add: arrays_extended_refl arrays_extended_push split: option.splits js.splits)
next
  case (CleanupExpiredSessions now)
  then show ?thesis by (simp add: cleanupExpiredSessions_def arrays_cleanup_loop arrays_extended_refl)
next
  case (TimeoutFires sid)
  then show ?thesis by (simp add: arrays_extended_refl split: option.splits Timeout.splits)
next
  case (NewArray xs)
  then show ?thesis by (simp add: new_array_def arrays_extended_new)
qed (simp_all add: arrays_extended_refl)

lemma arrays_extended_run: "arrays_extended (arrays cm) (arrays (run ops cm))"
proof (induction ops arbitrary: cm)
  case Nil
  show ?case by (simp add: arrays_extended_refl)
next
  case (Cons op ops)
  show ?case
    using arrays_extended_trans[OF arrays_extended_exec[of cm op] Cons.IH[of "exec op cm"]] by simp
qed

section \<open>Entries are never removed\<close>

text \<open>
  C10. No store operation removes an entry from the session map: across any sequence of
  operations (method calls, sweeps, timers firing) the keys stored before are stored after, in
  the same order and followed by those that were added, so the number of entries does not
  decrease; that number is \<open>totalSessions\<close> whenever \<open>getSessionStats()\<close> returns. \<open>endSession\<close>
  and the sweep keep every entry in its place and change nothing in a session but \<open>isActive\<close>,
  which they set to false.
\<close>

theorem sessions_never_removed:
  "set (map fst (activeSessions cm)) \<subseteq> set (map fst (activeSessions (run ops cm)))
   \<and> (\<exists>ks. map fst (activeSessions (run ops cm)) = map fst (activeSessions cm) @ ks)
   \<and> length (activeSessions cm) \<le> length (activeSessions (run ops cm))
   \<and> (\<forall>before after. getSessionStats cm = Inr before \<longrightarrow> getSessionStats (run ops cm) = Inr after \<longrightarrow>
         totalSessions before \<le> totalSessions after)
   \<and> (\<forall>stats. getSessionStats cm = Inr stats \<longrightarrow> totalSessions stats = length (activeSessions cm))
   \<and> sessions_rel (\<lambda>s s'. s' = s \<or> s' = s\<lparr>isActive := Val False\<rparr>)
         (activeSessions cm) (activeSessions (snd (endSession sid cm)))
   \<and> sessions_rel (\<lambda>s s'. s' = s \<or> s' = s\<lparr>isActive := Val False\<rparr>)
         (activeSessions cm) (activeSessions (cleanupExpiredSessions now cm))"
proof -
  obtain ks where ks: "map fst (activeSessions (run ops cm)) = map fst (activeSessions cm) @ ks"
    using run_keys by blast
  have len: "length (activeSessions cm) \<le> length (activeSessions (run ops cm))"
    using arg_cong[OF ks, of length] by simp
  have total: "\<And>c stats. getSessionStats c = Inr stats \<Longrightarrow> totalSessions stats = length (activeSessions c)"
  proof -
    fix c stats assume r: "getSessionStats c = Inr stats"
    then have "stats_defined c" using getSessionStats_undefined[of c] by auto
    from getSessionStats_defined[OF this] r show "totalSessions stats = length (activeSessions c)"
      by auto
  qed
  have keys: "set (map fst (activeSessions cm)) \<subseteq> set (map fst (activeSessions (run ops cm)))"
    unfolding ks by simp
  have ended: "sessions_rel (\<lambda>s s'. s' = s \<or> s' = s\<lparr>isActive := Val False\<rparr>)
         (activeSessions cm) (activeSessions (snd (endSession sid cm)))"
    by (rule endSession_rel) auto
  have swept: "sessions_rel (\<lambda>s s'. s' = s \<or> s' = s\<lparr>isActive := Val False\<rparr>)
         (activeSessions cm) (activeSessions (cleanupExpiredSessions now cm))"
    unfolding cleanupExpiredSessions_def by (rule cleanup_loop_rel) auto
  from keys ks len total ended swept show ?thesis by (auto simp del: set_map)
qed

theorem sessions_never_removed_witness:
  "set (map fst (activeSessions example_store))
     \<subseteq> set (map fst (activeSessions
          (run [EndSession ''whatsapp_+1_5'', CleanupExpiredSessions 1800006, CreateSession 6 6 6 ''+1'']
             example_store)))
   \<and> map fst (activeSessions
          (run [EndSession ''whatsapp_+1_5'', CleanupExpiredSessions 1800006, CreateSession 6 6 6 ''+1'']
             example_store)) = [''whatsapp_+1_5'', ''whatsapp_+1_6'']
   \<and> stats_defined example_store
   \<and> stats_defined
        (run [EndSession ''whatsapp_+1_5'', CleanupExpiredSessions 1800006, CreateSession 6 6 6 ''+1'']
             example_store)
   \<and> (\<exists>before after. getSessionStats example_store = Inr before
         \<and> getSessionStats
             (run [EndSession ''whatsapp_+1_5'', CleanupExpiredSessions 1800006, CreateSession 6 6 6 ''+1'']
                example_store) = Inr after
         \<and> totalSessions before = 1 \<and> totalSessions after = 2)"
proof -
  let ?after = "run [EndSession ''whatsapp_+1_5'', CleanupExpiredSessions 1800006, CreateSession 6 6 6 ''+1'']
             example_store"
  have keys: "map fst (activeSessions ?after) = [''whatsapp_+1_5'', ''whatsapp_+1_6'']"
    by code_simp
  have keys0: "map fst (activeSessions example_store) = [''whatsapp_+1_5'']"
    by code_simp
  have d0: "stats_defined example_store"
    by code_simp
  have d1: "stats_defined ?after"
    by code_simp
  from getSessionStats_defined[OF d0] obtain before where
    b: "getSessionStats example_store = Inr before" by blast
  from getSessionStats_defined[OF d1] obtain after where
    a: "getSessionStats ?after = Inr after" by blast
  note inst = sessions_never_removed [where cm = example_store
        and ops = "[EndSession ''whatsapp_+1_5'', CleanupExpiredSessions 1800006, CreateSession 6 6 6 ''+1'']"]
  from inst b have tb: "totalSessions before = length (activeSessions example_store)" by blast
  have ta: "totalSessions after = length (activeSessions ?after)"
    using getSessionStats_defined[OF d1] a by auto
  have l0: "length (activeSessions example_store) = 1"
    using arg_cong[OF keys0, of length] by simp
  have l1: "length (activeSessions ?after) = 2"
    using arg_cong[OF keys, of length] by simp
  from inst have sub: "set (map fst (activeSessions example_store)) \<subseteq> set (map fst (activeSessions ?after))"
    by blast
  from sub keys d0 d1 a b tb ta l0 l1 show ?thesis by auto
qed

section \<open>The conversation history\<close>

lemma history_of_touch [simp]: "history_of cm (s\<lparr>lastActivity := t\<rparr>) = history_of cm s"
  by (simp add: history_of_def)

lemma history_of_SomeD:
  "history_of cm s = Some h \<Longrightarrow>
   \<exists>a. conversationHistory s = Val a \<and> a < length (arrays cm) \<and> h = arrays cm ! a"
  by (auto simp: history_of_def split: js.splits if_splits)

lemma history_of_extended:
  assumes "history_of cm s = Some h" and "arrays_extended (arrays cm) (arrays cm')"
    and "conversationHistory s' = conversationHistory s"
  shows "\<exists>ms. history_of cm' s' = Some (h @ ms)"
proof -
  from history_of_SomeD[OF assms(1)] obtain a where
    a: "conversationHistory s = Val a" "a < length (arrays cm)" "h = arrays cm ! a" by blast
  from assms(2) a(2) obtain ms where "arrays cm' ! a = arrays cm ! a @ ms" and "a < length (arrays cm')"
    by (auto simp: arrays_extended_def)
  with a assms(3) show ?thesis by (auto simp: history_of_def)
qed

lemma addMessageToSession_stored:
  assumes "Map_get (activeSessions cm) sid = Some s" and "conversationHistory s = Val a"
  shows "\<exists>cm'. addMessageToSession now sid message cm = Inr (True, cm')
           \<and> Map_get (activeSessions cm') sid = Some (s\<lparr>lastActivity := now\<rparr>)
           \<and> (\<forall>k. k \<noteq> sid \<longrightarrow> Map_get (activeSessions cm') k = Map_get (activeSessions cm) k)
           \<and> arrays cm' = (arrays cm)[a := arrays cm ! a @ [message]]
           \<and> Map_get (sessionTimeouts cm') sid = Some (EndSessionAfter sid SESSION_TIMEOUT)"
  using assms
  by (simp add: addMessageToSession_def Let_def Map_get_mutate array_push_def Map_get_timer_reset)

lemma addMessageToSession_history:
  assumes st: "Map_get (activeSessions cm) sid = Some s" and h: "history_of cm s = Some h"
  shows "\<exists>cm'. addMessageToSession now sid message cm = Inr (True, cm')
           \<and> Map_get (activeSessions cm') sid = Some (s\<lparr>lastActivity := now\<rparr>)
           \<and> history_of cm' (s\<lparr>lastActivity := now\<rparr>) = Some (h @ [message])"
proof -
  from history_of_SomeD[OF h] obtain a where
    a: "conversationHistory s = Val a" "a < length (arrays cm)" "h = arrays cm ! a" by blast
  from addMessageToSession_stored[OF st a(1), of now message] obtain cm' where
    r: "addMessageToSession now sid message cm = Inr (True, cm')"
    and g: "Map_get (activeSessions cm') sid = Some (s\<lparr>lastActivity := now\<rparr>)"
    and arr: "arrays cm' = (arrays cm)[a := arrays cm ! a @ [message]]" by blast
  have "history_of cm' (s\<lparr>lastActivity := now\<rparr>) = Some (h @ [message])"
    using a arr by (simp add: history_of_def)
  with r g show ?thesis by blast
qed

lemma addMessages_stored:
  "Map_get (activeSessions cm) sid = Some s \<Longrightarrow> history_of cm s = Some h \<Longrightarrow>
   fst (addMessages sid tms cm) = map (\<lambda>tm. Inr True) tms
   \<and> (\<exists>s'. Map_get (activeSessions (snd (addMessages sid tms cm))) sid = Some s'
          \<and> conversationHistory s' = conversationHistory s
          \<and> history_of (snd (addMessages sid tms cm)) s' = Some (h @ map snd tms))"
proof (induction tms arbitrary: cm s h)
  case Nil
  then show ?case by simp
next
  case (Cons tm tms)
  obtain now message where tm: "tm = (now, message)" by (cases tm)
  from addMessageToSession_history[OF Cons.prems, of now message] obtain cm1 where
    r: "addMessageToSession now sid message cm = Inr (True, cm1)"
    and g: "Map_get (activeSessions cm1) sid = Some (s\<lparr>lastActivity := now\<rparr>)"
    and h1: "history_of cm1 (s\<lparr>lastActivity := now\<rparr>) = Some (h @ [message])" by blast
  from Cons.IH[OF g h1]
  have 1: "fst (addMessages sid tms cm1) = map (\<lambda>tm. Inr True) tms"
    and 2: "\<exists>s'. Map_get (activeSessions (snd (addMessages sid tms cm1))) sid = Some s'
          \<and> conversationHistory s' = conversationHistory (s\<lparr>lastActivity := now\<rparr>)
          \<and> history_of (snd (addMessages sid tms cm1)) s' = Some ((h @ [message]) @ map snd tms)"
    by auto
  have "addMessages sid (tm # tms) cm
      = (Inr True # fst (addMessages sid tms cm1), snd (addMessages sid tms cm1))"
    unfolding tm using r by (simp add: case_prod_beta)
  with 1 2 show ?case unfolding tm by simp
qed

lemma addMessages_undefined:
  "Map_get (activeSessions cm) sid = Some s \<Longrightarrow> conversationHistory s = Undefined \<Longrightarrow>
   addMessages sid tms cm = (map (\<lambda>tm. Inl TypeError) tms, cm)"
proof (induction tms)
  case Nil
  then show ?case by simp
next
  case (Cons tm tms)
  obtain now message where tm: "tm = (now, message)" by (cases tm)
  have "addMessageToSession now sid message cm = Inl TypeError"
    using Cons.prems by (simp add: addMessageToSession_def)
  then show ?case using Cons unfolding tm by simp
qed

lemma addMessages_absent:
  "Map_get (activeSessions cm) sid = None \<Longrightarrow>
   addMessages sid tms cm = (map (\<lambda>tm. Inr False) tms, cm)"
proof (induction tms)
  case Nil
  then show ?case by simp
next
  case (Cons tm tms)
  obtain now message where tm: "tm = (now, message)" by (cases tm)
  have "addMessageToSession now sid message cm = Inr (False, cm)"
    using Cons.prems by (simp add: addMessageToSession_def)
  then show ?case using Cons unfolding tm by simp
qed

lemma history_step:
  assumes nr: "\<not> replaces_history op" and nc: "created_id op \<noteq> Some sid"
    and st: "Map_get (activeSessions cm) sid = Some s" and h: "history_of cm s = Some h"
  shows "\<exists>s' ms. Map_get (activeSessions (exec op cm)) sid = Some s'
           \<and> conversationHistory s' = conversationHistory s
           \<and> history_of (exec op cm) s' = Some (h @ ms)"
proof -
  have "\<exists>s'. Map_get (activeSessions (exec op cm)) sid = Some s'
           \<and> conversationHistory s' = conversationHistory s"
  proof (cases "\<exists>a b c P. op = CreateSession a b c P")
    case True
    then obtain a b c P where op: "op = CreateSession a b c P" by blast
    with nc have "make_sessionId P a \<noteq> sid" by simp
    then have "Map_get (activeSessions (exec op cm)) sid = Some s"
      using st unfolding op by (simp add: activeSessions_createSession Map_get_Map_set)
    then show ?thesis by simp
  next
    case False
    let ?R = "\<lambda>s s'. conversationHistory s' = conversationHistory s"
    have upd: "\<And>now k u s. op = UpdateSession now k u \<Longrightarrow> ?R s ((object_assign s u)\<lparr>lastActivity := now\<rparr>)"
      using nr by (auto simp: object_assign_def assign_property_def)
    have "sessions_rel ?R (activeSessions cm) (activeSessions (exec op cm))"
    proof (rule exec_rel)
      show "\<And>a b c. ?R a b \<Longrightarrow> ?R b c \<Longrightarrow> ?R a c" by auto
      show "\<And>now sid u s. op = UpdateSession now sid u \<Longrightarrow> ?R s ((object_assign s u)\<lparr>lastActivity := now\<rparr>)"
        by (rule upd)
      show "\<And>a b c P. op \<noteq> CreateSession a b c P" using False by blast
    qed simp_all
    from sessions_rel_get[OF this st] show ?thesis by blast
  qed
  then obtain s' where g: "Map_get (activeSessions (exec op cm)) sid = Some s'"
    and c: "conversationHistory s' = conversationHistory s" by blast
  from history_of_extended[OF h arrays_extended_exec c] g c show ?thesis by blast
qed

lemma updateSession_stored:
  assumes "Map_get (activeSessions cm) sid = Some s"
  shows "fst (updateSession now sid updates cm) = True
     \<and> Map_get (activeSessions (snd (updateSession now sid updates cm))) sid
         = Some ((object_assign s updates)\<lparr>lastActivity := now\<rparr>)
     \<and> (\<forall>k. k \<noteq> sid \<longrightarrow> Map_get (activeSessions (snd (updateSession now sid updates cm))) k
            = Map_get (activeSessions cm) k)
     \<and> arrays (snd (updateSession now sid updates cm)) = arrays cm
     \<and> Map_get (sessionTimeouts (snd (updateSession now sid updates cm))) sid
         = Some (EndSessionAfter sid SESSION_TIMEOUT)"
  using assms by (simp add: updateSession_def Let_def Map_get_mutate Map_get_timer_reset)

text \<open>
  C6, as the code has it. A run of \<open>addMessageToSession\<close> calls on a stored session whose
  \<open>conversationHistory\<close> is an array all return true and leave the history as the history
  before followed by the messages in call order (so a history that starts empty holds exactly
  the messages appended, as many as there were successful calls). On a stored session whose
  \<open>conversationHistory\<close> is \<open>undefined\<close> every call raises a \<open>TypeError\<close>, and on an id that
  is not stored every call returns false; both change nothing. No operation removes or
  reorders an element of any array. Every operation other than an \<open>updateSession\<close> that is
  given a \<open>conversationHistory\<close>, and other than a \<open>createSession\<close> that generates this very
  id, leaves a stored session its array, so that its history is as it was or extended at the
  end; an \<open>updateSession\<close> that is given a \<open>conversationHistory\<close> stores what it is given.
\<close>

theorem history_append_only:
  "(Map_get (activeSessions cm) sid = Some s \<longrightarrow> history_of cm s = Some h \<longrightarrow>
      fst (addMessages sid tms cm) = map (\<lambda>tm. Inr True) tms
      \<and> (\<exists>s'. Map_get (activeSessions (snd (addMessages sid tms cm))) sid = Some s'
             \<and> conversationHistory s' = conversationHistory s
             \<and> history_of (snd (addMessages sid tms cm)) s' = Some (h @ map snd tms)))
   \<and> (Map_get (activeSessions cm) sid = Some s \<longrightarrow> conversationHistory s = Undefined \<longrightarrow>
        addMessages sid tms cm = (map (\<lambda>tm. Inl TypeError) tms, cm))
   \<and> (Map_get (activeSessions cm) sid = None \<longrightarrow>
        addMessages sid tms cm = (map (\<lambda>tm. Inr False) tms, cm))
   \<and> arrays_extended (arrays cm) (arrays (exec op cm))
   \<and> (\<not> replaces_history op \<longrightarrow> created_id op \<noteq> Some sid \<longrightarrow>
        Map_get (activeSessions cm) sid = Some s \<longrightarrow> history_of cm s = Some h \<longrightarrow>
        (\<exists>s' ms. Map_get (activeSessions (exec op cm)) sid = Some s'
            \<and> conversationHistory s' = conversationHistory s
            \<and> history_of (exec op cm) s' = Some (h @ ms)))
   \<and> (Map_get (activeSessions cm) sid = Some s \<longrightarrow> u_conversationHistory updates = Some given \<longrightarrow>
        fst (updateSession now sid updates cm) = True
        \<and> (\<exists>s'. Map_get (activeSessions (snd (updateSession now sid updates cm))) sid = Some s'
               \<and> conversationHistory s' = given)
        \<and> arrays (snd (updateSession now sid updates cm)) = arrays cm)"
proof (intro conjI impI)
  assume "Map_get (activeSessions cm) sid = Some s" and "u_conversationHistory updates = Some given"
  then show "\<exists>s'. Map_get (activeSessions (snd (updateSession now sid updates cm))) sid = Some s'
               \<and> conversationHistory s' = given"
    using updateSession_stored[of cm sid s now updates]
    by (simp add: object_assign_def assign_property_def)
qed (use addMessages_stored[of cm sid s h tms] addMessages_undefined[of cm sid s tms]
      addMessages_absent[of cm sid tms] history_step[of op sid cm s h]
      arrays_extended_exec[of cm op] updateSession_stored[of cm sid s now updates] in blast)+

theorem history_append_only_witness:
  "Map_get (activeSessions example_chat) ''whatsapp_+1_5'' = Some (example_session\<lparr>lastActivity := 7\<rparr>)
   \<and> history_of example_chat (example_session\<lparr>lastActivity := 7\<rparr>) = Some [example_message]
   \<and> fst (addMessages ''whatsapp_+1_5'' [(8, example_reply), (9, example_question)] example_chat)
       = [Inr True, Inr True]
   \<and> map_option
        (history_of (snd (addMessages ''whatsapp_+1_5'' [(8, example_reply), (9, example_question)]
           example_chat)))
        (Map_get (activeSessions (snd (addMessages ''whatsapp_+1_5''
           [(8, example_reply), (9, example_question)] example_chat))) ''whatsapp_+1_5'')
       = Some (Some [example_message, example_reply, example_question])
   \<and> map_option conversationHistory (Map_get (activeSessions example_no_history) ''whatsapp_+1_5'')
       = Some Undefined
   \<and> addMessages ''whatsapp_+1_5'' [(8, example_reply)] example_no_history
       = ([Inl TypeError], example_no_history)
   \<and> Map_get (activeSessions example_chat) ''whatsapp_+2_5'' = None
   \<and> addMessages ''whatsapp_+2_5'' [(8, example_reply)] example_chat = ([Inr False], example_chat)
   \<and> \<not> replaces_history (EndSession ''whatsapp_+1_5'')
   \<and> created_id (EndSession ''whatsapp_+1_5'') \<noteq> Some ''whatsapp_+1_5''
   \<and> map_option (history_of (exec (EndSession ''whatsapp_+1_5'') example_chat))
        (Map_get (activeSessions (exec (EndSession ''whatsapp_+1_5'') example_chat)) ''whatsapp_+1_5'')
       = Some (Some [example_message])
   \<and> map_option (history_of (exec (CreateSession 6 6 6 ''+2'') example_chat))
        (Map_get (activeSessions (exec (CreateSession 6 6 6 ''+2'') example_chat)) ''whatsapp_+1_5'')
       = Some (Some [example_message])
   \<and> arrays (exec (AddMessageToSession 8 ''whatsapp_+1_5'' example_reply) example_chat)
       = [[example_message, example_reply]]"
proof -
  have stored: "Map_get (activeSessions example_chat) ''whatsapp_+1_5''
      = Some (example_session\<lparr>lastActivity := 7\<rparr>)"
    by code_simp
  have hist: "history_of example_chat (example_session\<lparr>lastActivity := 7\<rparr>) = Some [example_message]"
    by code_simp
  have undef: "Map_get (activeSessions example_no_history) ''whatsapp_+1_5''
      = Some ((example_session\<lparr>lastActivity := 8\<rparr>)\<lparr>conversationHistory := Undefined\<rparr>)"
    by code_simp
  have absent: "Map_get (activeSessions example_chat) ''whatsapp_+2_5'' = None"
    by code_simp
  have ended: "map_option (history_of (exec (EndSession ''whatsapp_+1_5'') example_chat))
        (Map_get (activeSessions (exec (EndSession ''whatsapp_+1_5'') example_chat)) ''whatsapp_+1_5'')
       = Some (Some [example_message])"
    by code_simp
  have created: "map_option (history_of (exec (CreateSession 6 6 6 ''+2'') example_chat))
        (Map_get (activeSessions (exec (CreateSession 6 6 6 ''+2'') example_chat)) ''whatsapp_+1_5'')
       = Some (Some [example_message])"
    by code_simp
  have pushed: "arrays (exec (AddMessageToSession 8 ''whatsapp_+1_5'' example_reply) example_chat)
       = [[example_message, example_reply]]"
    by code_simp
  note run = history_append_only [where cm = example_chat and sid = "''whatsapp_+1_5''"
        and s = "example_session\<lparr>lastActivity := 7\<rparr>" and h = "[example_message]"
        and tms = "[(8, example_reply), (9, example_question)]" and op = "EndSession ''whatsapp_+1_5''"
        and updates = no_updates and given = Undefined and now = 8]
  from run stored hist
  have results: "fst (addMessages ''whatsapp_+1_5'' [(8, example_reply), (9, example_question)] example_chat)
       = [Inr True, Inr True]"
    and final: "\<exists>s'. Map_get (activeSessions (snd (addMessages ''whatsapp_+1_5''
           [(8, example_reply), (9, example_question)] example_chat))) ''whatsapp_+1_5'' = Some s'
        \<and> history_of (snd (addMessages ''whatsapp_+1_5'' [(8, example_reply), (9, example_question)]
           example_chat)) s' = Some ([example_message] @ map snd [(8, example_reply), (9, example_question)])"
    by (auto simp del: addMessages.simps)
  from final have final': "map_option
        (history_of (snd (addMessages ''whatsapp_+1_5'' [(8, example_reply), (9, example_question)]
           example_chat)))
        (Map_get (activeSessions (snd (addMessages ''whatsapp_+1_5''
           [(8, example_reply), (9, example_question)] example_chat))) ''whatsapp_+1_5'')
       = Some (Some [example_message, example_reply, example_question])"
    by (auto simp del: addMessages.simps)
  from undef
    history_append_only [where cm = example_no_history and sid = "''whatsapp_+1_5''"
        and s = "(example_session\<lparr>lastActivity := 8\<rparr>)\<lparr>conversationHistory := Undefined\<rparr>"
        and tms = "[(8, example_reply)]" and h = "[]" and op = "EndSession ''whatsapp_+1_5''"
        and updates = no_updates and given = Undefined and now = 8]
  have raised: "addMessages ''whatsapp_+1_5'' [(8, example_reply)] example_no_history
       = ([Inl TypeError], example_no_history)"
    by (simp del: addMessages.simps)
  from absent
    history_append_only [where cm = example_chat and sid = "''whatsapp_+2_5''"
        and s = example_session and tms = "[(8, example_reply)]" and h = "[]"
        and op = "EndSession ''whatsapp_+1_5''" and updates = no_updates and given = Undefined
        and now = 8]
  have refused: "addMessages ''whatsapp_+2_5'' [(8, example_reply)] example_chat = ([Inr False], example_chat)"
    by (simp del: addMessages.simps)
  from stored hist results final' undef raised absent refused ended created pushed
  show ?thesis by (simp del: addMessages.simps)
qed

text \<open>
  The claim as written fails: the session of \<open>example_chat\<close> holds one message; a caller
  builds the empty array \<open>[]\<close>, and \<open>updateSession\<close> with \<open>{conversationHistory: []}\<close>
  returns true and leaves the session with an empty history.
\<close>

theorem history_replaced_counterexample:
  "map_option (history_of example_chat) (Map_get (activeSessions example_chat) ''whatsapp_+1_5'')
     = Some (Some [example_message])
   \<and> fst (new_array [] example_chat) = 1
   \<and> fst (updateSession 8 ''whatsapp_+1_5'' (no_updates\<lparr>u_conversationHistory := Some (Val 1)\<rparr>)
            (snd (new_array [] example_chat))) = True
   \<and> map_option
        (history_of (snd (updateSession 8 ''whatsapp_+1_5''
           (no_updates\<lparr>u_conversationHistory := Some (Val 1)\<rparr>) (snd (new_array [] example_chat)))))
        (Map_get (activeSessions (snd (updateSession 8 ''whatsapp_+1_5''
           (no_updates\<lparr>u_conversationHistory := Some (Val 1)\<rparr>) (snd (new_array [] example_chat)))))
           ''whatsapp_+1_5'')
     = Some (Some [])"
  by code_simp

section \<open>The periodic sweep\<close>

lemma deactivate_idem: "isActive s = Val False \<Longrightarrow> s\<lparr>isActive := Val False\<rparr> = s"
  by (cases s) simp

lemma endSession_inactive:
  "(sid, s') \<in> set (activeSessions (snd (endSession sid cm))) \<Longrightarrow> isActive s' = Val False"
proof (cases "Map_get (activeSessions cm) sid")
  case None
  assume m: "(sid, s') \<in> set (activeSessions (snd (endSession sid cm)))"
  from None have "sid \<notin> fst ` set (activeSessions cm)"
    by (simp add: Map_get_def map_of_eq_None_iff)
  moreover from None m have "(sid, s') \<in> set (activeSessions cm)"
    by (simp add: endSession_def)
  ultimately show ?thesis by force
next
  case (Some a)
  assume "(sid, s') \<in> set (activeSessions (snd (endSession sid cm)))"
  with Some have "(sid, s') \<in> set (mutate sid (\<lambda>s. s\<lparr>isActive := Val False\<rparr>) (activeSessions cm))"
    by (simp add: endSession_def Let_def)
  then show ?thesis by (auto simp: set_mutate split: if_splits)
qed

lemma deact_rel_loop:
  "sessions_rel (\<lambda>s s'. s' = s \<or> s' = s\<lparr>isActive := Val False\<rparr>) (activeSessions cm)
     (activeSessions (fst (cleanup_loop now es (cm, n))))"
  by (rule cleanup_loop_rel) auto

lemma cleanup_loop_deactivates:
  "(k, s0) \<in> set es \<Longrightarrow> \<not> truthy (isActive s0) \<or> now - lastActivity s0 > SESSION_TIMEOUT \<Longrightarrow>
   (k, s') \<in> set (activeSessions (fst (cleanup_loop now es (cm, n)))) \<Longrightarrow> isActive s' = Val False"
proof (induction es arbitrary: cm n)
  case Nil
  then show ?case by simp
next
  case (Cons e es)
  obtain sid session where e: "e = (sid, session)" by (cases e)
  let ?cond = "\<not> truthy (isActive session) \<or> now - lastActivity session > SESSION_TIMEOUT"
  show ?case
  proof (cases "(k, s0) = e \<and> ?cond")
    case True
    then have k: "sid = k" and c: ?cond using e by auto
    let ?cm1 = "snd (endSession k cm)"
    from c have "cleanup_loop now (e # es) (cm, n) = cleanup_loop now es (?cm1, n + 1)"
      unfolding e k by simp
    with Cons.prems(3) have "(k, s') \<in> set (activeSessions (fst (cleanup_loop now es (?cm1, n + 1))))"
      by simp
    from sessions_rel_mem[OF deact_rel_loop this]
    obtain s where "(k, s) \<in> set (activeSessions ?cm1)" and "s' = s \<or> s' = s\<lparr>isActive := Val False\<rparr>"
      by blast
    with endSession_inactive[of k s cm] show ?thesis by auto
  next
    case False
    with Cons.prems(1,2) e have mem: "(k, s0) \<in> set es" by auto
    show ?thesis
    proof (cases ?cond)
      case True
      then have "cleanup_loop now (e # es) (cm, n) = cleanup_loop now es (snd (endSession sid cm), n + 1)"
        unfolding e by simp
      with Cons.prems(3) Cons.IH[OF mem Cons.prems(2)] show ?thesis by simp
    next
      case False
      then have "cleanup_loop now (e # es) (cm, n) = cleanup_loop now es (cm, n)"
        unfolding e by simp
      with Cons.prems(3) Cons.IH[OF mem Cons.prems(2)] show ?thesis by simp
    qed
  qed
qed

lemma sweep_entry:
  assumes mem: "(k, s') \<in> set (activeSessions (cleanupExpiredSessions now cm))"
    and stale: "now - lastActivity s' > SESSION_TIMEOUT"
  shows "isActive s' = Val False"
proof -
  from mem have m: "(k, s') \<in> set (activeSessions (fst (cleanup_loop now (activeSessions cm) (cm, 0))))"
    by (simp add: cleanupExpiredSessions_def)
  from sessions_rel_mem[OF deact_rel_loop m]
  obtain s where s: "(k, s) \<in> set (activeSessions cm)" and r: "s' = s \<or> s' = s\<lparr>isActive := Val False\<rparr>"
    by blast
  from r have "lastActivity s = lastActivity s'" by auto
  with stale have "\<not> truthy (isActive s) \<or> now - lastActivity s > SESSION_TIMEOUT" by simp
  from cleanup_loop_deactivates[OF s this m] show ?thesis .
qed

text \<open>
  C7. In every state of the store, so in every reachable one and whatever the timer table
  holds, after \<open>cleanupExpiredSessions\<close> has run at time \<open>now\<close> every stored session whose
  \<open>lastActivity\<close> lies more than \<open>SESSION_TIMEOUT\<close> before \<open>now\<close> is inactive; a session that
  was stale before the sweep is stored afterwards unchanged but for \<open>isActive = false\<close>.
\<close>

theorem sweep_ends_stale_sessions:
  "((k, s') \<in> set (activeSessions (cleanupExpiredSessions now cm)) \<longrightarrow>
      now - lastActivity s' > SESSION_TIMEOUT \<longrightarrow> isActive s' = Val False)
   \<and> (Map_get (activeSessions cm) k = Some s \<longrightarrow> now - lastActivity s > SESSION_TIMEOUT \<longrightarrow>
        Map_get (activeSessions (cleanupExpiredSessions now cm)) k = Some (s\<lparr>isActive := Val False\<rparr>))"
proof (intro conjI impI)
  assume "(k, s') \<in> set (activeSessions (cleanupExpiredSessions now cm))"
    and "now - lastActivity s' > SESSION_TIMEOUT"
  then show "isActive s' = Val False" by (rule sweep_entry)
next
  assume st: "Map_get (activeSessions cm) k = Some s" and stale: "now - lastActivity s > SESSION_TIMEOUT"
  have "sessions_rel (\<lambda>s s'. s' = s \<or> s' = s\<lparr>isActive := Val False\<rparr>) (activeSessions cm)
     (activeSessions (cleanupExpiredSessions now cm))"
    unfolding cleanupExpiredSessions_def by (rule deact_rel_loop)
  from sessions_rel_get[OF this st]
  obtain s1 where g: "Map_get (activeSessions (cleanupExpiredSessions now cm)) k = Some s1"
    and r: "s1 = s \<or> s1 = s\<lparr>isActive := Val False\<rparr>" by blast
  from g have mem: "(k, s1) \<in> set (activeSessions (cleanupExpiredSessions now cm))"
    by (rule Map_get_SomeD)
  from r stale have "now - lastActivity s1 > SESSION_TIMEOUT" by auto
  from sweep_entry[OF mem this] have "isActive s1 = Val False" .
  with r have "s1 = s\<lparr>isActive := Val False\<rparr>" using deactivate_idem[of s] by auto
  with g show "Map_get (activeSessions (cleanupExpiredSessions now cm)) k = Some (s\<lparr>isActive := Val False\<rparr>)"
    by simp
qed

theorem sweep_ends_stale_sessions_witness:
  "Map_get (activeSessions (example_store\<lparr>sessionTimeouts := []\<rparr>)) ''whatsapp_+1_5''
      = Some example_session
   \<and> isActive example_session = Val True
   \<and> 1800006 - lastActivity example_session > SESSION_TIMEOUT
   \<and> Map_get (activeSessions (cleanupExpiredSessions 1800006 (example_store\<lparr>sessionTimeouts := []\<rparr>)))
        ''whatsapp_+1_5''
      = Some (example_session\<lparr>isActive := Val False\<rparr>)
   \<and> (''whatsapp_+1_5'', example_session\<lparr>isActive := Val False\<rparr>)
        \<in> set (activeSessions (cleanupExpiredSessions 1800006 (example_store\<lparr>sessionTimeouts := []\<rparr>)))
   \<and> isActive (example_session\<lparr>isActive := Val False\<rparr>) = Val False"
proof -
  have stored: "Map_get (activeSessions (example_store\<lparr>sessionTimeouts := []\<rparr>)) ''whatsapp_+1_5''
      = Some example_session"
    by code_simp
  have active: "isActive example_session = Val True"
    by code_simp
  have last: "lastActivity example_session = 5"
    by code_simp
  have stale: "1800006 - lastActivity example_session > SESSION_TIMEOUT"
    unfolding last by (simp add: SESSION_TIMEOUT_def)
  have stale': "1800006 - lastActivity (example_session\<lparr>isActive := Val False\<rparr>) > SESSION_TIMEOUT"
    using stale by simp
  have mem: "(''whatsapp_+1_5'', example_session\<lparr>isActive := Val False\<rparr>)
        \<in> set (activeSessions (cleanupExpiredSessions 1800006 (example_store\<lparr>sessionTimeouts := []\<rparr>)))"
    by code_simp
  show ?thesis
    using stored active stale stale' mem
      sweep_ends_stale_sessions [where k = "''whatsapp_+1_5''"
        and s' = "example_session\<lparr>isActive := Val False\<rparr>"
        and now = 1800006 and cm = "example_store\<lparr>sessionTimeouts := []\<rparr>"
        and s = example_session]
    by blast
qed

section \<open>The session id\<close>

lemma ids_are_keys_exec:
  assumes inv: "ids_are_keys cm" and ns: "\<not> sets_sessionId op"
  shows "ids_are_keys (exec op cm)"
proof (cases "\<exists>a b c P. op = CreateSession a b c P")
  case True
  then obtain a b c P where op: "op = CreateSession a b c P" by blast
  have "sessionId (fst (createSession a b c P cm)) = Val (make_sessionId P a)"
    by (simp add: createSession_def new_array_def Let_def)
  then show ?thesis
    using inv set_Map_set_subset[of "make_sessionId P a" "fst (createSession a b c P cm)" "activeSessions cm"]
    unfolding op ids_are_keys_def list_all_iff exec.simps activeSessions_createSession
    by auto
next
  case False
  let ?R = "\<lambda>s s'. sessionId s' = sessionId s"
  have upd: "\<And>now k u s. op = UpdateSession now k u \<Longrightarrow> ?R s ((object_assign s u)\<lparr>lastActivity := now\<rparr>)"
    using ns by (auto simp: object_assign_def assign_property_def)
  have rel: "sessions_rel ?R (activeSessions cm) (activeSessions (exec op cm))"
  proof (rule exec_rel)
    show "\<And>now sid u s. op = UpdateSession now sid u \<Longrightarrow> ?R s ((object_assign s u)\<lparr>lastActivity := now\<rparr>)"
      by (rule upd)
    show "\<And>a b c P. op \<noteq> CreateSession a b c P" using False by blast
  qed simp_all
  show ?thesis
    unfolding ids_are_keys_def list_all_iff
  proof clarify
    fix k s' assume "(k, s') \<in> set (activeSessions (exec op cm))"
    from sessions_rel_mem[OF rel this] obtain s where "(k, s) \<in> set (activeSessions cm)"
      and "sessionId s' = sessionId s" by blast
    with inv show "sessionId s' = Val k" by (auto simp: ids_are_keys_def list_all_iff)
  qed
qed

lemma ids_are_keys_run:
  "ids_are_keys cm \<Longrightarrow> list_all (\<lambda>op. \<not> sets_sessionId op) ops \<Longrightarrow> ids_are_keys (run ops cm)"
  by (induction ops arbitrary: cm) (simp_all add: ids_are_keys_exec)

text \<open>
  C9, as the code has it. In a run of store operations from the empty store in which no
  \<open>updateSession\<close> is given a \<open>sessionId\<close>, a stored session's \<open>sessionId\<close> is the key it
  was created under and is the same after any further such operations. An \<open>updateSession\<close>
  that is given a \<open>sessionId\<close> succeeds on a stored session and overwrites its \<open>sessionId\<close>
  with the value given; the key of the entry stays.
\<close>

theorem sessionId_stable_without_id_update:
  "(list_all (\<lambda>op. \<not> sets_sessionId op) (ops @ ops') \<longrightarrow>
      Map_get (activeSessions (run ops initial)) k = Some s \<longrightarrow>
      sessionId s = Val k
      \<and> (\<exists>s'. Map_get (activeSessions (run (ops @ ops') initial)) k = Some s' \<and> sessionId s' = sessionId s))
   \<and> (Map_get (activeSessions cm) k = Some s \<longrightarrow>
        fst (updateSession now k (updates\<lparr>u_sessionId := Some x\<rparr>) cm) = True
        \<and> map_option sessionId
            (Map_get (activeSessions (snd (updateSession now k (updates\<lparr>u_sessionId := Some x\<rparr>) cm))) k)
          = Some x)"
proof (intro conjI impI)
  assume all: "list_all (\<lambda>op. \<not> sets_sessionId op) (ops @ ops')"
    and st: "Map_get (activeSessions (run ops initial)) k = Some s"
  have i0: "ids_are_keys initial" by (simp add: ids_are_keys_def initial_def)
  from all have "ids_are_keys (run ops initial)"
    by (intro ids_are_keys_run i0) simp
  moreover from st have "(k, s) \<in> set (activeSessions (run ops initial))"
    by (rule Map_get_SomeD)
  ultimately show id: "sessionId s = Val k" by (auto simp: ids_are_keys_def list_all_iff)
  from all have later: "ids_are_keys (run (ops @ ops') initial)"
    by (intro ids_are_keys_run i0)
  obtain ks where "map fst (activeSessions (run ops' (run ops initial)))
      = map fst (activeSessions (run ops initial)) @ ks"
    using run_keys by blast
  moreover from st have "k \<in> set (map fst (activeSessions (run ops initial)))"
    by (auto dest!: Map_get_SomeD intro: rev_image_eqI)
  ultimately have "k \<in> fst ` set (activeSessions (run (ops @ ops') initial))"
    by (simp add: run_append del: set_map) (simp only: set_map [symmetric], simp)
  from Map_get_present[OF this]
  obtain s' where g: "Map_get (activeSessions (run (ops @ ops') initial)) k = Some s'"
    by blast
  then have "(k, s') \<in> set (activeSessions (run (ops @ ops') initial))"
    by (rule Map_get_SomeD)
  with later have "sessionId s' = Val k" by (auto simp: ids_are_keys_def list_all_iff)
  with g id show "\<exists>s'. Map_get (activeSessions (run (ops @ ops') initial)) k = Some s' \<and> sessionId s' = sessionId s"
    by simp
next
  assume "Map_get (activeSessions cm) k = Some s"
  then show "fst (updateSession now k (updates\<lparr>u_sessionId := Some x\<rparr>) cm) = True"
    by (simp add: updateSession_def Let_def)
next
  assume "Map_get (activeSessions cm) k = Some s"
  then show "map_option sessionId
            (Map_get (activeSessions (snd (updateSession now k (updates\<lparr>u_sessionId := Some x\<rparr>) cm))) k)
          = Some x"
    by (simp add: updateSession_def Let_def Map_get_mutate object_assign_def assign_property_def)
qed

theorem sessionId_stable_without_id_update_witness:
  "list_all (\<lambda>op. \<not> sets_sessionId op)
      ([CreateSession 5 5 5 ''+1'']
        @ [AddMessageToSession 7 ''whatsapp_+1_5'' example_message, EndSession ''whatsapp_+1_5''])
   \<and> Map_get (activeSessions (run [CreateSession 5 5 5 ''+1''] initial)) ''whatsapp_+1_5''
       = Some example_session
   \<and> sessionId example_session = Val ''whatsapp_+1_5''
   \<and> (\<exists>s'. Map_get (activeSessions (run ([CreateSession 5 5 5 ''+1'']
              @ [AddMessageToSession 7 ''whatsapp_+1_5'' example_message, EndSession ''whatsapp_+1_5''])
            initial)) ''whatsapp_+1_5'' = Some s'
          \<and> sessionId s' = Val ''whatsapp_+1_5'')
   \<and> map_option sessionId
        (Map_get (activeSessions (snd (updateSession 8 ''whatsapp_+1_5''
           (no_updates\<lparr>u_sessionId := Some (Val ''x'')\<rparr>)
           (run [CreateSession 5 5 5 ''+1''] initial)))) ''whatsapp_+1_5'')
       = Some (Val ''x'')"
proof -
  have ok: "list_all (\<lambda>op. \<not> sets_sessionId op)
      ([CreateSession 5 5 5 ''+1'']
        @ [AddMessageToSession 7 ''whatsapp_+1_5'' example_message, EndSession ''whatsapp_+1_5''])"
    by simp
  have stored: "Map_get (activeSessions (run [CreateSession 5 5 5 ''+1''] initial)) ''whatsapp_+1_5''
       = Some example_session"
    by code_simp
  note inst = sessionId_stable_without_id_update [where ops = "[CreateSession 5 5 5 ''+1'']"
        and ops' = "[AddMessageToSession 7 ''whatsapp_+1_5'' example_message, EndSession ''whatsapp_+1_5'']"
        and k = "''whatsapp_+1_5''" and s = example_session
        and cm = "run [CreateSession 5 5 5 ''+1''] initial" and now = 8 and updates = no_updates
        and x = "Val ''x''"]
  from inst ok stored
  have kept: "sessionId example_session = Val ''whatsapp_+1_5''"
    and later: "\<exists>s'. Map_get (activeSessions (run ([CreateSession 5 5 5 ''+1'']
              @ [AddMessageToSession 7 ''whatsapp_+1_5'' example_message, EndSession ''whatsapp_+1_5''])
            initial)) ''whatsapp_+1_5'' = Some s'
          \<and> sessionId s' = sessionId example_session"
    by blast+
  from later kept
  have later': "\<exists>s'. Map_get (activeSessions (run ([CreateSession 5 5 5 ''+1'']
              @ [AddMessageToSession 7 ''whatsapp_+1_5'' example_message, EndSession ''whatsapp_+1_5''])
            initial)) ''whatsapp_+1_5'' = Some s'
          \<and> sessionId s' = Val ''whatsapp_+1_5''"
    by metis
  from inst stored
  have overwritten: "map_option sessionId
        (Map_get (activeSessions (snd (updateSession 8 ''whatsapp_+1_5''
           (no_updates\<lparr>u_sessionId := Some (Val ''x'')\<rparr>)
           (run [CreateSession 5 5 5 ''+1''] initial)))) ''whatsapp_+1_5'')
       = Some (Val ''x'')"
    by blast
  from ok stored kept later' overwritten show ?thesis
    by blast
qed

text \<open>
  The claim as written fails: \<open>updateSession\<close> with \<open>{sessionId: 'x'}\<close> on the session of
  \<open>example_store\<close> returns true, and the session stored under the old key then has the
  \<open>sessionId\<close> \<open>x\<close>.
\<close>

theorem sessionId_overwritten_counterexample:
  "map_option sessionId (Map_get (activeSessions example_store) ''whatsapp_+1_5'')
     = Some (Val ''whatsapp_+1_5'')
   \<and> fst (updateSession 8 ''whatsapp_+1_5'' (no_updates\<lparr>u_sessionId := Some (Val ''x'')\<rparr>) example_store)
     = True
   \<and> map_option sessionId
       (Map_get (activeSessions (snd (updateSession 8 ''whatsapp_+1_5''
          (no_updates\<lparr>u_sessionId := Some (Val ''x'')\<rparr>) example_store))) ''whatsapp_+1_5'')
     = Some (Val ''x'')"
  by code_simp

section \<open>An ended session\<close>

lemma inactive_step:
  assumes st: "Map_get (activeSessions cm) sid = Some s" and ina: "isActive s \<noteq> Val True"
    and nr: "\<not> reactivates op" and nc: "created_id op \<noteq> Some sid"
  shows "\<exists>s'. Map_get (activeSessions (exec op cm)) sid = Some s' \<and> isActive s' \<noteq> Val True"
proof (cases "\<exists>a b c P. op = CreateSession a b c P")
  case True
  then obtain a b c P where op: "op = CreateSession a b c P" by blast
  with nc have "make_sessionId P a \<noteq> sid" by simp
  then have "Map_get (activeSessions (exec op cm)) sid = Some s"
    using st unfolding op by (simp add: activeSessions_createSession Map_get_Map_set)
  with ina show ?thesis by simp
next
  case False
  let ?R = "\<lambda>s s'. isActive s' = Val True \<longrightarrow> isActive s = Val True"
  have upd: "\<And>now k u s. op = UpdateSession now k u \<Longrightarrow> ?R s ((object_assign s u)\<lparr>lastActivity := now\<rparr>)"
    using nr by (auto simp: object_assign_def assign_property_def split: option.splits)
  have "sessions_rel ?R (activeSessions cm) (activeSessions (exec op cm))"
  proof (rule exec_rel)
    show "\<And>now sid u s. op = UpdateSession now sid u \<Longrightarrow> ?R s ((object_assign s u)\<lparr>lastActivity := now\<rparr>)"
      by (rule upd)
    show "\<And>a b c P. op \<noteq> CreateSession a b c P" using False by blast
  qed simp_all
  from sessions_rel_get[OF this st] ina show ?thesis by blast
qed

lemma inactive_run:
  "Map_get (activeSessions cm) sid = Some s \<Longrightarrow> isActive s \<noteq> Val True \<Longrightarrow>
   list_all (\<lambda>op. \<not> reactivates op \<and> created_id op \<noteq> Some sid) ops \<Longrightarrow>
   \<exists>s'. Map_get (activeSessions (run ops cm)) sid = Some s' \<and> isActive s' \<noteq> Val True"
proof (induction ops arbitrary: cm s)
  case Nil
  then show ?case by simp
next
  case (Cons op ops)
  from Cons.prems(3) have 1: "\<not> reactivates op" "created_id op \<noteq> Some sid"
    and 2: "list_all (\<lambda>op. \<not> reactivates op \<and> created_id op \<noteq> Some sid) ops" by auto
  from inactive_step[OF Cons.prems(1,2) 1]
  obtain s1 where "Map_get (activeSessions (exec op cm)) sid = Some s1" "isActive s1 \<noteq> Val True" by blast
  from Cons.IH[OF this 2] show ?case by simp
qed

lemma getSessionById_inactive:
  "Map_get (activeSessions cm) sid = Some s \<Longrightarrow> isActive s \<noteq> Val True \<Longrightarrow>
   getSessionById now sid cm = (None, cm)"
  by (simp add: getSessionById_def truthy_iff)

text \<open>
  C1, as the code has it. After \<open>endSession(s)\<close> has returned true the session stays stored,
  with \<open>isActive\<close> false, and \<open>getSessionById(s)\<close> reports not-found and leaves the store as
  it is; it still does so after any further operations among which no \<open>updateSession\<close> is
  given \<open>isActive: true\<close> and no \<open>createSession\<close> generates the id \<open>s\<close>.
  \<open>updateSession(s, ...)\<close> and \<open>addMessageToSession(s, ...)\<close> return false, changing nothing,
  exactly when no session is stored under \<open>s\<close>. On a stored session, an ended one included,
  \<open>updateSession\<close> returns true and stores the session with the given properties merged in
  and \<open>lastActivity\<close> set to the current time; \<open>addMessageToSession\<close> returns true, appends
  the message to the session's array and sets \<open>lastActivity\<close> when \<open>conversationHistory\<close> is
  an array, and raises a \<open>TypeError\<close>, changing nothing, when it is \<open>undefined\<close>.
\<close>

theorem ended_session_stays_stored:
  "(Map_get (activeSessions cm) sid = Some s \<longrightarrow>
      fst (endSession sid cm) = True
      \<and> Map_get (activeSessions (snd (endSession sid cm))) sid = Some (s\<lparr>isActive := Val False\<rparr>)
      \<and> getSessionById now sid (snd (endSession sid cm)) = (None, snd (endSession sid cm))
      \<and> (list_all (\<lambda>op. \<not> reactivates op \<and> created_id op \<noteq> Some sid) ops \<longrightarrow>
            (\<exists>s'. Map_get (activeSessions (run ops (snd (endSession sid cm)))) sid = Some s'
                \<and> isActive s' \<noteq> Val True)
            \<and> fst (getSessionById now sid (run ops (snd (endSession sid cm)))) = None))
   \<and> (Map_get (activeSessions cm) sid = Some s \<longrightarrow>
        fst (updateSession now sid updates cm) = True
        \<and> Map_get (activeSessions (snd (updateSession now sid updates cm))) sid
            = Some ((object_assign s updates)\<lparr>lastActivity := now\<rparr>)
        \<and> (\<forall>k. k \<noteq> sid \<longrightarrow> Map_get (activeSessions (snd (updateSession now sid updates cm))) k
               = Map_get (activeSessions cm) k)
        \<and> arrays (snd (updateSession now sid updates cm)) = arrays cm
        \<and> Map_get (sessionTimeouts (snd (updateSession now sid updates cm))) sid
            = Some (EndSessionAfter sid SESSION_TIMEOUT))
   \<and> (Map_get (activeSessions cm) sid = Some s \<longrightarrow> conversationHistory s = Val a \<longrightarrow>
        (\<exists>cm'. addMessageToSession now sid message cm = Inr (True, cm')
           \<and> Map_get (activeSessions cm') sid = Some (s\<lparr>lastActivity := now\<rparr>)
           \<and> (\<forall>k. k \<noteq> sid \<longrightarrow> Map_get (activeSessions cm') k = Map_get (activeSessions cm) k)
           \<and> arrays cm' = (arrays cm)[a := arrays cm ! a @ [message]]
           \<and> Map_get (sessionTimeouts cm') sid = Some (EndSessionAfter sid SESSION_TIMEOUT)))
   \<and> (Map_get (activeSessions cm) sid = Some s \<longrightarrow> history_of cm s = Some h \<longrightarrow>
        (\<exists>cm'. addMessageToSession now sid message cm = Inr (True, cm')
           \<and> Map_get (activeSessions cm') sid = Some (s\<lparr>lastActivity := now\<rparr>)
           \<and> history_of cm' (s\<lparr>lastActivity := now\<rparr>) = Some (h @ [message])))
   \<and> (Map_get (activeSessions cm) sid = Some s \<longrightarrow> conversationHistory s = Undefined \<longrightarrow>
        addMessageToSession now sid message cm = Inl TypeError)
   \<and> (Map_get (activeSessions cm) sid = None \<longrightarrow>
        updateSession now sid updates cm = (False, cm)
        \<and> addMessageToSession now sid message cm = Inr (False, cm))
   \<and> (fst (updateSession now sid updates cm) = False) = (Map_get (activeSessions cm) sid = None)
   \<and> (\<exists>cm'. addMessageToSession now sid message cm = Inr (False, cm'))
       = (Map_get (activeSessions cm) sid = None)"
proof (intro conjI impI)
  assume st: "Map_get (activeSessions cm) sid = Some s"
  show "fst (endSession sid cm) = True"
    using st by (simp add: endSession_def Let_def)
  show e: "Map_get (activeSessions (snd (endSession sid cm))) sid = Some (s\<lparr>isActive := Val False\<rparr>)"
    using st by (simp add: endSession_def Let_def Map_get_mutate)
  then show "getSessionById now sid (snd (endSession sid cm)) = (None, snd (endSession sid cm))"
    by (rule getSessionById_inactive) simp
  assume "list_all (\<lambda>op. \<not> reactivates op \<and> created_id op \<noteq> Some sid) ops"
  from inactive_run[OF e _ this]
  obtain s' where s': "Map_get (activeSessions (run ops (snd (endSession sid cm)))) sid = Some s'"
    "isActive s' \<noteq> Val True" by auto
  then show "\<exists>s'. Map_get (activeSessions (run ops (snd (endSession sid cm)))) sid = Some s'
                \<and> isActive s' \<noteq> Val True" by blast
  from s' show "fst (getSessionById now sid (run ops (snd (endSession sid cm)))) = None"
    by (simp add: getSessionById_inactive)
next
  show "(fst (updateSession now sid updates cm) = False) = (Map_get (activeSessions cm) sid = None)"
    by (simp add: updateSession_def Let_def split: option.splits)
  show "(\<exists>cm'. addMessageToSession now sid message cm = Inr (False, cm'))
       = (Map_get (activeSessions cm) sid = None)"
    by (simp add: addMessageToSession_def Let_def split: option.splits js.splits)
next
  assume "Map_get (activeSessions cm) sid = None"
  then show "updateSession now sid updates cm = (False, cm)"
    by (simp add: updateSession_def)
next
  assume "Map_get (activeSessions cm) sid = None"
  then show "addMessageToSession now sid message cm = Inr (False, cm)"
    by (simp add: addMessageToSession_def)
next
  assume "Map_get (activeSessions cm) sid = Some s" and "conversationHistory s = Undefined"
  then show "addMessageToSession now sid message cm = Inl TypeError"
    by (simp add: addMessageToSession_def)
qed (use updateSession_stored[of cm sid s now updates]
      addMessageToSession_stored[of cm sid s a now message]
      addMessageToSession_history[of cm sid s h now message] in blast)+

theorem ended_session_stays_stored_witness:
  "Map_get (activeSessions example_chat) ''whatsapp_+1_5'' = Some (example_session\<lparr>lastActivity := 7\<rparr>)
   \<and> fst (endSession ''whatsapp_+1_5'' example_chat) = True
   \<and> Map_get (activeSessions example_ended) ''whatsapp_+1_5''
       = Some (example_session\<lparr>lastActivity := 7, isActive := Val False\<rparr>)
   \<and> getSessionById 10 ''whatsapp_+1_5'' example_ended = (None, example_ended)
   \<and> list_all (\<lambda>op. \<not> reactivates op \<and> created_id op \<noteq> Some ''whatsapp_+1_5'')
        [AddMessageToSession 8 ''whatsapp_+1_5'' example_reply, GetSession 9 ''+1'']
   \<and> fst (getSessionById 10 ''whatsapp_+1_5''
        (run [AddMessageToSession 8 ''whatsapp_+1_5'' example_reply, GetSession 9 ''+1''] example_ended))
       = None
   \<and> fst (updateSession 10 ''whatsapp_+1_5'' (no_updates\<lparr>u_phoneNumber := Some (Val ''+9'')\<rparr>)
        example_ended) = True
   \<and> Map_get (activeSessions (snd (updateSession 10 ''whatsapp_+1_5''
        (no_updates\<lparr>u_phoneNumber := Some (Val ''+9'')\<rparr>) example_ended))) ''whatsapp_+1_5''
       = Some (example_session\<lparr>phoneNumber := Val ''+9'', lastActivity := 10, isActive := Val False\<rparr>)
   \<and> history_of example_ended (example_session\<lparr>lastActivity := 7, isActive := Val False\<rparr>)
       = Some [example_message]
   \<and> (\<exists>cm'. addMessageToSession 10 ''whatsapp_+1_5'' example_reply example_ended = Inr (True, cm')
         \<and> Map_get (activeSessions cm') ''whatsapp_+1_5''
             = Some (example_session\<lparr>lastActivity := 10, isActive := Val False\<rparr>)
         \<and> history_of cm' (example_session\<lparr>lastActivity := 10, isActive := Val False\<rparr>)
             = Some [example_message, example_reply])
   \<and> Map_get (activeSessions example_chat) ''whatsapp_+2_5'' = None
   \<and> updateSession 10 ''whatsapp_+2_5'' no_updates example_chat = (False, example_chat)
   \<and> addMessageToSession 10 ''whatsapp_+2_5'' example_reply example_chat = Inr (False, example_chat)
   \<and> map_option conversationHistory (Map_get (activeSessions example_no_history) ''whatsapp_+1_5'')
       = Some Undefined
   \<and> addMessageToSession 10 ''whatsapp_+1_5'' example_reply example_no_history = Inl TypeError"
proof -
  let ?ops = "[AddMessageToSession 8 ''whatsapp_+1_5'' example_reply, GetSession 9 ''+1'']"
  let ?ended = "example_session\<lparr>lastActivity := 7, isActive := Val False\<rparr>"
  have stored: "Map_get (activeSessions example_chat) ''whatsapp_+1_5''
      = Some (example_session\<lparr>lastActivity := 7\<rparr>)"
    by code_simp
  have stored_ended: "Map_get (activeSessions example_ended) ''whatsapp_+1_5'' = Some ?ended"
    by code_simp
  have hist: "history_of example_ended ?ended = Some [example_message]"
    by code_simp
  have quiet: "list_all (\<lambda>op. \<not> reactivates op \<and> created_id op \<noteq> Some ''whatsapp_+1_5'') ?ops"
    by simp
  have absent: "Map_get (activeSessions example_chat) ''whatsapp_+2_5'' = None"
    by code_simp
  have undef: "Map_get (activeSessions example_no_history) ''whatsapp_+1_5''
      = Some ((example_session\<lparr>lastActivity := 8\<rparr>)\<lparr>conversationHistory := Undefined\<rparr>)"
    by code_simp
  have merged: "(object_assign ?ended (no_updates\<lparr>u_phoneNumber := Some (Val ''+9'')\<rparr>))\<lparr>lastActivity := 10\<rparr>
      = example_session\<lparr>phoneNumber := Val ''+9'', lastActivity := 10, isActive := Val False\<rparr>"
    by (simp add: object_assign_def assign_property_def no_updates_def)
  note ending = ended_session_stays_stored [where cm = example_chat and sid = "''whatsapp_+1_5''"
      and s = "example_session\<lparr>lastActivity := 7\<rparr>" and now = 10 and ops = ?ops
      and updates = no_updates and message = example_reply and a = 0 and h = "[example_message]"]
  note on_ended = ended_session_stays_stored [where cm = example_ended and sid = "''whatsapp_+1_5''"
      and s = ?ended and now = 10 and ops = "[]"
      and updates = "no_updates\<lparr>u_phoneNumber := Some (Val ''+9'')\<rparr>" and message = example_reply
      and a = 0 and h = "[example_message]"]
  note on_absent = ended_session_stays_stored [where cm = example_chat and sid = "''whatsapp_+2_5''"
      and s = example_session and now = 10 and ops = "[]"
      and updates = no_updates and message = example_reply and a = 0 and h = "[]"]
  note on_undefined = ended_session_stays_stored [where cm = example_no_history
      and sid = "''whatsapp_+1_5''"
      and s = "(example_session\<lparr>lastActivity := 8\<rparr>)\<lparr>conversationHistory := Undefined\<rparr>"
      and now = 10 and ops = "[]" and updates = no_updates and message = example_reply and a = 0
      and h = "[]"]
  from ending stored quiet
  have f1: "fst (endSession ''whatsapp_+1_5'' example_chat) = True"
    and f2: "getSessionById 10 ''whatsapp_+1_5'' example_ended = (None, example_ended)"
    and f3: "fst (getSessionById 10 ''whatsapp_+1_5'' (run ?ops example_ended)) = None"
    unfolding example_ended_def by blast+
  from on_ended stored_ended
  have f4: "fst (updateSession 10 ''whatsapp_+1_5'' (no_updates\<lparr>u_phoneNumber := Some (Val ''+9'')\<rparr>)
        example_ended) = True"
    and f5: "Map_get (activeSessions (snd (updateSession 10 ''whatsapp_+1_5''
        (no_updates\<lparr>u_phoneNumber := Some (Val ''+9'')\<rparr>) example_ended))) ''whatsapp_+1_5''
       = Some ((object_assign ?ended (no_updates\<lparr>u_phoneNumber := Some (Val ''+9'')\<rparr>))\<lparr>lastActivity := 10\<rparr>)"
    by blast+
  from on_ended stored_ended hist
  have f6: "\<exists>cm'. addMessageToSession 10 ''whatsapp_+1_5'' example_reply example_ended = Inr (True, cm')
         \<and> Map_get (activeSessions cm') ''whatsapp_+1_5'' = Some (?ended\<lparr>lastActivity := 10\<rparr>)
         \<and> history_of cm' (?ended\<lparr>lastActivity := 10\<rparr>) = Some ([example_message] @ [example_reply])"
    by blast
  from on_absent absent
  have f7: "updateSession 10 ''whatsapp_+2_5'' no_updates example_chat = (False, example_chat)"
    and f8: "addMessageToSession 10 ''whatsapp_+2_5'' example_reply example_chat = Inr (False, example_chat)"
    by blast+
  from on_undefined undef
  have f9: "addMessageToSession 10 ''whatsapp_+1_5'' example_reply example_no_history = Inl TypeError"
    by simp
  from f5 merged
  have g5: "Map_get (activeSessions (snd (updateSession 10 ''whatsapp_+1_5''
        (no_updates\<lparr>u_phoneNumber := Some (Val ''+9'')\<rparr>) example_ended))) ''whatsapp_+1_5''
       = Some (example_session\<lparr>phoneNumber := Val ''+9'', lastActivity := 10, isActive := Val False\<rparr>)"
    by (simp only:)
  have touched: "?ended\<lparr>lastActivity := 10\<rparr> = example_session\<lparr>lastActivity := 10, isActive := Val False\<rparr>"
    by simp
  have appended: "[example_message] @ [example_reply] = [example_message, example_reply]"
    by simp
  from f6
  have g6: "\<exists>cm'. addMessageToSession 10 ''whatsapp_+1_5'' example_reply example_ended = Inr (True, cm')
         \<and> Map_get (activeSessions cm') ''whatsapp_+1_5''
             = Some (example_session\<lparr>lastActivity := 10, isActive := Val False\<rparr>)
         \<and> history_of cm' (example_session\<lparr>lastActivity := 10, isActive := Val False\<rparr>)
             = Some [example_message, example_reply]"
    unfolding touched appended .
  from undef
  have undef': "map_option conversationHistory (Map_get (activeSessions example_no_history) ''whatsapp_+1_5'')
       = Some Undefined"
    by simp
  from stored stored_ended hist quiet absent undef' f1 f2 f3 f4 g5 g6 f7 f8 f9
  show ?thesis by blast
qed

text \<open>
  The claim as written fails. In \<open>example_chat\<close>, after \<open>endSession\<close> has returned true,
  \<open>getSessionById\<close> reports not-found, but \<open>addMessageToSession\<close> returns true and appends
  to the ended session, and \<open>updateSession\<close> with \<open>{isActive: true}\<close> returns true, after
  which \<open>getSessionById\<close> finds the session again.
\<close>

theorem ended_session_mutated_counterexample:
  "fst (endSession ''whatsapp_+1_5'' example_chat) = True
   \<and> fst (getSessionById 10 ''whatsapp_+1_5'' example_ended) = None
   \<and> (case addMessageToSession 10 ''whatsapp_+1_5'' example_reply example_ended of
         Inl e \<Rightarrow> False
       | Inr (ok, cm') \<Rightarrow>
           ok \<and> map_option (history_of cm') (Map_get (activeSessions cm') ''whatsapp_+1_5'')
                 = Some (Some [example_message, example_reply]))
   \<and> fst (updateSession 11 ''whatsapp_+1_5'' (no_updates\<lparr>u_isActive := Some (Val True)\<rparr>) example_ended)
       = True
   \<and> map_option sessionId
        (fst (getSessionById 12 ''whatsapp_+1_5''
           (snd (updateSession 11 ''whatsapp_+1_5'' (no_updates\<lparr>u_isActive := Some (Val True)\<rparr>)
              example_ended))))
       = Some (Val ''whatsapp_+1_5'')"
  by code_simp

end
